theory Spec2Isabelle
  imports Main "HOL-Library.AList" "HOL-Library.Sublist" "HOL-Library.Multiset"
begin

section \<open>JavaScript values used by \<open>transform.ts\<close>\<close>

text \<open>
  Strings are lists of characters. An insertion-ordered \<open>Map\<close> is an association
  list: \<open>Map.set\<close> overwrites the value of a key that is present and keeps its position,
  and appends a key that is new; \<open>Map.get\<close> is \<^const>\<open>map_of\<close>; iteration and
  \<open>Map.values()\<close> follow the list.
\<close>

abbreviation Map_set :: "'k \<Rightarrow> 'v \<Rightarrow> ('k \<times> 'v) list \<Rightarrow> ('k \<times> 'v) list" where
  "Map_set \<equiv> AList.update"

abbreviation Map_get :: "('k \<times> 'v) list \<Rightarrow> 'k \<Rightarrow> 'v option" where
  "Map_get \<equiv> map_of"

abbreviation Map_values :: "('k \<times> 'v) list \<Rightarrow> 'v list" where
  "Map_values m \<equiv> map snd m"

text \<open>\<open>Array.prototype.join\<close>.\<close>

fun join :: "string \<Rightarrow> string list \<Rightarrow> string" where
  "join sep [] = []"
| "join sep [x] = x"
| "join sep (x # y # ys) = x @ sep @ join sep (y # ys)"

text \<open>
  \<open>GetSubstitution\<close> of ECMAScript for a search without capture groups: in the replacement
  text \<open>$$\<close> is a dollar sign, \<open>$&\<close> the matched text, \<open>$`\<close> the text before the match and
  \<open>$'\<close> the text after it; every other character stands for itself.
\<close>

fun getSubstitution :: "string \<Rightarrow> string \<Rightarrow> string \<Rightarrow> string \<Rightarrow> string" where
  "getSubstitution matched pre post [] = []"
| "getSubstitution matched pre post [c] = [c]"
| "getSubstitution matched pre post (c # d # r) =
     (if c = CHR ''$'' \<and> d = CHR ''$'' then CHR ''$'' # getSubstitution matched pre post r
      else if c = CHR ''$'' \<and> d = CHR ''&'' then matched @ getSubstitution matched pre post r
      else if c = CHR ''$'' \<and> d = CHR 0x60 then pre @ getSubstitution matched pre post r
      else if c = CHR ''$'' \<and> d = CHR 0x27 then post @ getSubstitution matched pre post r
      else c # getSubstitution matched pre post (d # r))"

text \<open>
  \<open>String.prototype.replaceAll\<close> with a string as the search value: the occurrences are
  found from left to right without overlap. \<open>seen\<close> is the part of the subject already
  passed.
\<close>

function replaceAllFrom :: "string \<Rightarrow> string \<Rightarrow> string \<Rightarrow> string \<Rightarrow> string" where
  "replaceAllFrom seen rest search replacement =
     (if search \<noteq> [] \<and> prefix search rest then
        getSubstitution search seen (drop (length search) rest) replacement
          @ replaceAllFrom (seen @ search) (drop (length search) rest) search replacement
      else (case rest of
              [] \<Rightarrow> []
            | c # cs \<Rightarrow> c # replaceAllFrom (seen @ [c]) cs search replacement))"
  by pat_completeness auto
termination
  by (relation "measure (\<lambda>(seen, rest, search, replacement). length rest)")
     (auto simp: prefix_def)

declare replaceAllFrom.simps [simp del]

fun replaceAllEmpty :: "string \<Rightarrow> string \<Rightarrow> string \<Rightarrow> string" where
  "replaceAllEmpty seen [] replacement = getSubstitution [] seen [] replacement"
| "replaceAllEmpty seen (c # cs) replacement =
     getSubstitution [] seen (c # cs) replacement @ c # replaceAllEmpty (seen @ [c]) cs replacement"

definition replaceAll :: "string \<Rightarrow> string \<Rightarrow> string \<Rightarrow> string" where
  "replaceAll subject search replacement =
     (if search = [] then replaceAllEmpty [] subject replacement
      else replaceAllFrom [] subject search replacement)"

text \<open>
  \<open>Number.prototype.toString\<close> on an integer below \<open>10^21\<close> in absolute value, where
  JavaScript prints every digit. The numbers printed here are pull request numbers, array
  indices, lengths and the statistics of the diff; from \<open>10^21\<close> on JavaScript prints a
  number in exponent notation, which this function does not do.
\<close>

fun digits :: "nat \<Rightarrow> string" where
  "digits n =
     (if n < 10 then [''0123456789'' ! n] else digits (n div 10) @ [''0123456789'' ! (n mod 10)])"

declare digits.simps [simp del]

definition Number_toString :: "int \<Rightarrow> string" where
  "Number_toString i = (if i < 0 then CHR ''-'' # digits (nat (- i)) else digits (nat i))"

text \<open>
  The order of the properties of an object: the keys that are array indices (canonical
  decimal numerals below \<open>2^32 - 1\<close>) come first in ascending order, the other keys follow
  in the order in which they were created.
\<close>

definition decimalValue :: "string \<Rightarrow> nat" where
  "decimalValue k = foldl (\<lambda>acc c. 10 * acc + (of_char c - 48)) 0 k"

definition isArrayIndex :: "string \<Rightarrow> bool" where
  "isArrayIndex k =
     (case k of
        [] \<Rightarrow> False
      | c # cs \<Rightarrow>
          list_all (\<lambda>d. d \<in> set ''0123456789'') k
          \<and> (cs = [] \<or> c \<noteq> CHR ''0'')
          \<and> decimalValue k < 4294967295)"

definition propertyOrder :: "(string \<times> 'v) list \<Rightarrow> (string \<times> 'v) list" where
  "propertyOrder m =
     sort_key (\<lambda>kv. decimalValue (fst kv)) (filter (\<lambda>kv. isArrayIndex (fst kv)) m)
       @ filter (\<lambda>kv. \<not> isArrayIndex (fst kv)) m"

text \<open>
  A compiled \<open>RegExp\<close> is known to this program only through \<open>String.prototype.replace\<close>
  and \<open>String.prototype.match\<close>, so it is represented by what these two do with it:
  \<open>re_replace r value target\<close> is \<open>value.replace(r, target)\<close>, and \<open>re_match r value\<close> is
  \<open>value.match(r)\<close>, \<open>None\<close> for \<open>null\<close>, with \<open>None\<close> elements for \<open>undefined\<close> groups.
\<close>

record RegExp =
  re_replace :: "string \<Rightarrow> string \<Rightarrow> string"
  re_match :: "string \<Rightarrow> string option list option"

section \<open>Data model\<close>

text \<open>
  \<open>RegexTransformer\<close> of \<open>github-pr-collector/lib/types\<close>, as this file reads it. The
  field \<open>method\<close> is \<open>extract_method\<close> here.
\<close>

record RegexTransformer =
  pattern :: "RegExp option"
  target :: string
  onProperty :: "string list option"
  extract_method :: "string option"
  onEmpty :: "string option"

text \<open>
  \<open>PullRequestInfo\<close> with the fields this file reads. A \<open>Moment\<close> is represented by its
  \<open>toISOString()\<close>; \<open>'c\<close> is \<open>CommentInfo\<close>.
\<close>

type_synonym Moment = string

record 'c PullRequestInfo =
  number :: int
  title :: string
  htmlURL :: string
  baseBranch :: string
  branch :: "string option"
  createdAt :: Moment
  mergedAt :: "Moment option"
  mergeCommitSha :: string
  author :: string
  labels :: "string list"
  milestone :: "string option"
  body :: string
  assignees :: "string list"
  requestedReviewers :: "string list"
  approvedReviewers :: "string list"
  reviews :: "'c list option"
  status :: string

text \<open>
  \<open>interface PullRequestData extends PullRequestInfo { childPrs?: PullRequestInfo[] }\<close>.
  The pull requests are objects that the lists, the lookup map and \<open>childPrs\<close> all refer
  to, so they live in a store (a list, indexed by address) and \<open>childPrs\<close> holds addresses.
  A function that the source types on \<open>PullRequestInfo\<close> (\<open>extractValues\<close>,
  \<open>retrieveProperty\<close>, \<open>matchesRules\<close>) receives the object without \<open>childPrs\<close>, which is
  no \<open>Property\<close> and no key of \<open>EMPTY_PULL_REQUEST_INFO\<close>.
\<close>

type_synonym addr = nat

record 'c PullRequestData = "'c PullRequestInfo" +
  childPrs :: "addr list option"

type_synonym 'c heap = "'c PullRequestData list"

text \<open>
  The configuration, with the fields this file reads. \<open>'t\<close> is the configured (not yet
  validated) \<open>Regex\<close>/\<open>Extractor\<close>/\<open>Transformer\<close>, \<open>'r\<close> is \<open>Rule\<close> and \<open>'s\<close> is the sort
  specification. The fields \<open>title\<close> and \<open>labels\<close> of \<open>Category\<close>, \<open>name\<close> of \<open>Placeholder\<close>
  and \<open>TagInfo\<close>, and \<open>sort\<close> of \<open>Configuration\<close> carry a prefix, since a field name
  belongs to one record.
\<close>

record 'r Category =
  key :: "string option"
  category_title :: string
  category_labels :: "string list option"
  exclude_labels :: "string list option"
  rules :: "'r list option"
  exhaustive :: "bool option"
  exhaustive_rules :: "bool option"
  empty_content :: "string option"

record 't Placeholder =
  placeholder_name :: string
  source :: string
  transformer :: 't

record ('t, 'r, 's) Configuration =
  config_sort :: 's
  template :: string
  pr_template :: string
  empty_template :: string
  categories :: "'r Category list"
  ignore_labels :: "string list"
  label_extractor :: "'t list"
  duplicate_filter :: "'t option"
  reference :: "'t option"
  transformers :: "'t list"
  custom_placeholders :: "'t Placeholder list option"
  trim_values :: bool

record TagInfo =
  tag_name :: string
  date :: "Moment option"

record ('t, 'r, 's) ReleaseNotesOptions =
  owner :: string
  repo :: string
  fromTag :: TagInfo
  toTag :: TagInfo
  configuration :: "('t, 'r, 's) Configuration"

record DiffInfo =
  changedFiles :: int
  additions :: int
  deletions :: int
  changes :: int
  commits :: int

section \<open>What the file imports\<close>

text \<open>
  \<open>transform.ts\<close> calls functions of \<open>github-pr-collector\<close>, of \<open>./regexUtils\<close> and of the
  JavaScript library whose code is not part of the file. They are parameters of the
  model, collected in one record:
  \<^item> \<open>validateTransformer\<close>, \<open>None\<close> for \<open>null\<close>;
  \<^item> \<open>sortPullRequests\<close>, which reorders an array of references and reads the objects
    (it sorts the array in place; the model gives the array it returns);
  \<^item> \<open>retrieveProperty\<close> and \<open>matchesRules\<close>;
  \<^item> \<open>Object.keys(EMPTY_COMMENT_INFO)\<close>, \<open>Object.keys(EMPTY_PULL_REQUEST_INFO)\<close> and
    the reading \<open>value[childKey]?.toLocaleString('en') || ''\<close> of one such field;
  \<^item> \<open>toLocaleLowerCase('en')\<close>, \<open>trim\<close>, \<open>parseInt\<close> (\<open>None\<close> for \<open>NaN\<close>),
    \<open>new RegExp(source, flags)\<close> and \<open>toDate.diff(fromDate, 'days').toString()\<close>.
\<close>

record ('t, 'r, 's, 'c) externals =
  validateTransformer :: "'t \<Rightarrow> RegexTransformer option"
  sortPullRequests :: "'c heap \<Rightarrow> addr list \<Rightarrow> 's \<Rightarrow> addr list"
  retrieveProperty :: "'c PullRequestInfo \<Rightarrow> string \<Rightarrow> string \<Rightarrow> string"
  matchesRules :: "'r list \<Rightarrow> 'c PullRequestInfo \<Rightarrow> bool \<Rightarrow> bool"
  commentInfoKeys :: "string list"
  commentInfoField :: "'c \<Rightarrow> string \<Rightarrow> string"
  pullRequestInfoKeys :: "string list"
  pullRequestInfoField :: "'c PullRequestInfo \<Rightarrow> string \<Rightarrow> string"
  toLocaleLowerCase :: "string \<Rightarrow> string"
  trim :: "string \<Rightarrow> string"
  parseInt :: "string \<Rightarrow> int option"
  newRegExp :: "string \<Rightarrow> string \<Rightarrow> RegExp"
  diffDays :: "Moment \<Rightarrow> Moment \<Rightarrow> string"

text \<open>
  Modelled from the spec: \<open>haveCommonElementsArr\<close> of \<open>./utils\<close>, whose code is not in
  the sources. The spec has the record's labels "intersect" the given labels.
\<close>

definition haveCommonElementsArr :: "string list \<Rightarrow> string list \<Rightarrow> bool" where
  "haveCommonElementsArr arr1 arr2 = list_ex (\<lambda>item. item \<in> set arr2) arr1"

text \<open>
  Modelled from the spec: \<open>haveEveryElementsArr\<close> of \<open>./utils\<close>, whose code is not in
  the sources. The spec has the record's labels be "a superset of the category's
  required labels".
\<close>

definition haveEveryElementsArr :: "string list \<Rightarrow> string list \<Rightarrow> bool" where
  "haveEveryElementsArr arr1 arr2 = list_all (\<lambda>item. item \<in> set arr2) arr1"

text \<open>
  Modelled from the spec: \<open>createOrSet\<close> of \<open>./utils\<close>, whose code is not in the sources.
  The spec has a value "recorded" under a key whose values are later read by index: the
  value is appended to the key's list, which is created when the key is new.
\<close>

definition createOrSet :: "(string \<times> 'v list) list \<Rightarrow> string \<Rightarrow> 'v \<Rightarrow> (string \<times> 'v list) list" where
  "createOrSet m k v =
     (case Map_get m k of
        None \<Rightarrow> Map_set k [v] m
      | Some entry \<Rightarrow> Map_set k (entry @ [v]) m)"

section \<open>Extraction\<close>

definition extractValuesFromString ::
  "('t, 'r, 's, 'c) externals \<Rightarrow> string \<Rightarrow> RegexTransformer \<Rightarrow> string list option" where
  "extractValuesFromString E v extractor =
     (case pattern extractor of
        None \<Rightarrow> None
      | Some re \<Rightarrow>
          (let found =
             (if extract_method extractor = Some ''match'' then
                (case re_match re v of
                   None \<Rightarrow> None
                 | Some [] \<Rightarrow> None
                 | Some (l # ls) \<Rightarrow>
                     Some (map (\<lambda>label. case label of None \<Rightarrow> [] | Some s \<Rightarrow> toLocaleLowerCase E s)
                             (l # ls)))
              else
                (let label = re_replace re v (target extractor)
                 in if label \<noteq> [] then Some [toLocaleLowerCase E label] else None))
           in case found of
                Some r \<Rightarrow> Some r
              | None \<Rightarrow>
                  (case onEmpty extractor of
                     Some e \<Rightarrow> Some [toLocaleLowerCase E e]
                   | None \<Rightarrow> None)))"

definition extractValues ::
  "('t, 'r, 's, 'c) externals \<Rightarrow> 'c PullRequestInfo \<Rightarrow> RegexTransformer \<Rightarrow> string
     \<Rightarrow> string list option" where
  "extractValues E pr extractor extractor_usecase =
     (case pattern extractor of
        None \<Rightarrow> None
      | Some re \<Rightarrow>
          (case onProperty extractor of
             Some props \<Rightarrow>
               Some (concat (map (\<lambda>prop.
                  case extractValuesFromString E (retrieveProperty E pr prop extractor_usecase) extractor of
                    None \<Rightarrow> []
                  | Some vs \<Rightarrow> vs) props))
           | None \<Rightarrow> extractValuesFromString E (body pr) extractor))"

text \<open>
  The test \<open>extracted !== null && extracted.length > 0\<close> followed by \<open>extracted[0]\<close>,
  which the reference and the duplicate stage share.
\<close>

definition firstExtracted :: "string list option \<Rightarrow> string option" where
  "firstExtracted extracted =
     (case extracted of None \<Rightarrow> None | Some [] \<Rightarrow> None | Some (x # xs) \<Rightarrow> Some x)"

definition validateTransformers ::
  "('t, 'r, 's, 'c) externals \<Rightarrow> 't list \<Rightarrow> RegexTransformer list" where
  "validateTransformers E specifiedTransformers =
     List.map_filter
       (\<lambda>t. case validateTransformer E t of
               None \<Rightarrow> None
             | Some x \<Rightarrow> (if pattern x \<noteq> None then Some x else None))
       specifiedTransformers"

section \<open>The stages of \<open>buildChangelog\<close>\<close>

subsection \<open>Parent and child pull requests (\<open>config.reference\<close>)\<close>

definition buildMapped :: "'c heap \<Rightarrow> addr list \<Rightarrow> (int \<times> addr) list" where
  "buildMapped h prs = fold (\<lambda>pr mapped. Map_set (number (h ! pr)) pr mapped) prs []"

definition pushChild :: "'c heap \<Rightarrow> addr \<Rightarrow> addr \<Rightarrow> 'c heap" where
  "pushChild h parent pr =
     h[parent := (h ! parent)\<lparr>childPrs :=
        Some ((case childPrs (h ! parent) of None \<Rightarrow> [] | Some cs \<Rightarrow> cs) @ [pr])\<rparr>]"

definition linkStep ::
  "('t, 'r, 's, 'c) externals \<Rightarrow> RegexTransformer \<Rightarrow> (int \<times> addr) list \<Rightarrow> addr
     \<Rightarrow> 'c heap \<times> addr list \<Rightarrow> 'c heap \<times> addr list" where
  "linkStep E ref mapped pr st =
     (let h = fst st; remappedPrs = snd st
      in case firstExtracted (extractValues E (PullRequestInfo.truncate (h ! pr)) ref ''reference'') of
           None \<Rightarrow> (h, remappedPrs @ [pr])
         | Some x \<Rightarrow>
             (case parseInt E x of
                None \<Rightarrow> (h, remappedPrs @ [pr])
              | Some foundNumber \<Rightarrow>
                  (case Map_get mapped foundNumber of
                     None \<Rightarrow> (h, remappedPrs @ [pr])
                   | Some parent \<Rightarrow> (pushChild h parent pr, remappedPrs))))"

definition linkReferences ::
  "('t, 'r, 's, 'c) externals \<Rightarrow> ('t, 'r, 's) Configuration \<Rightarrow> 'c heap \<Rightarrow> addr list
     \<Rightarrow> 'c heap \<times> addr list" where
  "linkReferences E config h prs =
     (case reference config of
        None \<Rightarrow> (h, prs)
      | Some r \<Rightarrow>
          (case validateTransformer E r of
             None \<Rightarrow> (h, prs)
           | Some ref \<Rightarrow> fold (linkStep E ref (buildMapped h prs)) prs (h, [])))"

subsection \<open>Duplicates (\<open>config.duplicate_filter\<close>)\<close>

definition dedupStep ::
  "('t, 'r, 's, 'c) externals \<Rightarrow> 'c heap \<Rightarrow> RegexTransformer \<Rightarrow> addr
     \<Rightarrow> (string \<times> addr) list \<times> addr list \<Rightarrow> (string \<times> addr) list \<times> addr list" where
  "dedupStep E h extractor pr st =
     (let deduplicatedMap = fst st; unmatched = snd st
      in case firstExtracted
                (extractValues E (PullRequestInfo.truncate (h ! pr)) extractor ''dupliate_filter'') of
           Some k \<Rightarrow> (Map_set k pr deduplicatedMap, unmatched)
         | None \<Rightarrow> (deduplicatedMap, unmatched @ [pr]))"

definition deduplicatedPRs ::
  "('t, 'r, 's, 'c) externals \<Rightarrow> 'c heap \<Rightarrow> RegexTransformer \<Rightarrow> addr list \<Rightarrow> addr list" where
  "deduplicatedPRs E h extractor prs =
     (let st = fold (dedupStep E h extractor) prs ([], [])
      in Map_values (fst st) @ snd st)"

text \<open>
  The stage gives the new list and the number \<open>removedElements\<close> that it reports
  (\<open>None\<close> when nothing is reported, the filter being absent or invalid).
\<close>

definition dropDuplicates ::
  "('t, 'r, 's, 'c) externals \<Rightarrow> ('t, 'r, 's) Configuration \<Rightarrow> 'c heap \<Rightarrow> addr list
     \<Rightarrow> addr list \<times> int option" where
  "dropDuplicates E config h prs =
     (case duplicate_filter config of
        None \<Rightarrow> (prs, None)
      | Some f \<Rightarrow>
          (case validateTransformer E f of
             None \<Rightarrow> (prs, None)
           | Some extractor \<Rightarrow>
               (let deduplicated = deduplicatedPRs E h extractor prs;
                    removedElements = int (length prs) - int (length deduplicated)
                in (sortPullRequests E h deduplicated (config_sort config), Some removedElements))))"

subsection \<open>Labels from \<open>config.label_extractor\<close>\<close>

definition extractLabelsStep ::
  "('t, 'r, 's, 'c) externals \<Rightarrow> RegexTransformer \<Rightarrow> addr \<Rightarrow> 'c heap \<Rightarrow> 'c heap" where
  "extractLabelsStep E extractor pr h =
     (case extractValues E (PullRequestInfo.truncate (h ! pr)) extractor ''label_extractor'' of
        None \<Rightarrow> h
      | Some extracted \<Rightarrow> h[pr := (h ! pr)\<lparr>labels := labels (h ! pr) @ extracted\<rparr>])"

definition extractLabels ::
  "('t, 'r, 's, 'c) externals \<Rightarrow> ('t, 'r, 's) Configuration \<Rightarrow> 'c heap \<Rightarrow> addr list \<Rightarrow> 'c heap" where
  "extractLabels E config h prs =
     fold (\<lambda>extractor h'. fold (extractLabelsStep E extractor) prs h')
       (validateTransformers E (label_extractor config)) h"

subsection \<open>Placeholders\<close>

text \<open>A \<open>Map\<close> filled by successive \<open>set\<close> calls.\<close>

definition Map_of_sets :: "('k \<times> 'v) list \<Rightarrow> ('k \<times> 'v) list \<Rightarrow> ('k \<times> 'v) list" where
  "Map_of_sets kvs m = fold (\<lambda>kv m'. Map_set (fst kv) (snd kv) m') kvs m"

definition customPlaceholders ::
  "('t, 'r, 's) Configuration \<Rightarrow> (string \<times> 't Placeholder list) list" where
  "customPlaceholders config =
     fold (\<lambda>ph placeholders. createOrSet placeholders (source ph) ph)
       (case custom_placeholders config of None \<Rightarrow> [] | Some phs \<Rightarrow> phs) []"

text \<open>The token \<open>${{KEY}}\<close>.\<close>

definition placeholderToken :: "string \<Rightarrow> string" where
  "placeholderToken k = ''${{'' @ k @ ''}}''"

definition trimmed ::
  "('t, 'r, 's, 'c) externals \<Rightarrow> ('t, 'r, 's) Configuration \<Rightarrow> string \<Rightarrow> string" where
  "trimmed E config v = (if trim_values config then trim E v else v)"

text \<open>
  One round of the loop over \<open>phs\<close> in \<open>handlePlaceholder\<close>. The state is the text and
  \<open>placeholderPrMap\<close>, which is \<open>None\<close> when the caller passes \<open>undefined\<close>.
\<close>

definition customPlaceholderStep ::
  "('t, 'r, 's, 'c) externals \<Rightarrow> string \<Rightarrow> ('t, 'r, 's) Configuration \<Rightarrow> 't Placeholder
     \<Rightarrow> string \<times> (string \<times> string list) list option
     \<Rightarrow> string \<times> (string \<times> string list) list option" where
  "customPlaceholderStep E v config placeholder st =
     (case validateTransformer E (transformer placeholder) of
        None \<Rightarrow> st
      | Some tr \<Rightarrow>
          (case pattern tr of
             None \<Rightarrow> st
           | Some re \<Rightarrow>
               (let extractedValue = re_replace re v (target tr)
                in if extractedValue \<noteq> [] \<and>
                      (extractedValue \<noteq> v \<or> (extractedValue = v \<and> re_match re v \<noteq> None))
                   then
                     (replaceAll (fst st) (placeholderToken (placeholder_name placeholder))
                        (trimmed E config extractedValue),
                      map_option (\<lambda>m. createOrSet m (placeholder_name placeholder) extractedValue)
                        (snd st))
                   else st)))"

definition handlePlaceholder ::
  "('t, 'r, 's, 'c) externals \<Rightarrow> string \<Rightarrow> string \<Rightarrow> string \<Rightarrow> (string \<times> 't Placeholder list) list
     \<Rightarrow> (string \<times> string list) list option \<Rightarrow> ('t, 'r, 's) Configuration
     \<Rightarrow> string \<times> (string \<times> string list) list option" where
  "handlePlaceholder E tmpl k v placeholders placeholderPrMap config =
     (let transformed = replaceAll tmpl (placeholderToken k) (trimmed E config v)
      in case Map_get placeholders k of
           None \<Rightarrow> (transformed, placeholderPrMap)
         | Some phs \<Rightarrow> fold (customPlaceholderStep E v config) phs (transformed, placeholderPrMap))"

definition replacePlaceholders ::
  "('t, 'r, 's, 'c) externals \<Rightarrow> string \<Rightarrow> (string \<times> string) list \<Rightarrow> (string \<times> string) list
     \<Rightarrow> (string \<times> 't Placeholder list) list \<Rightarrow> (string \<times> string list) list option
     \<Rightarrow> ('t, 'r, 's) Configuration \<Rightarrow> string \<times> (string \<times> string list) list option" where
  "replacePlaceholders E tmpl arrayPlaceholderMap placeholderMap placeholders placeholderPrMap config =
     (let step = (\<lambda>kv st. handlePlaceholder E (fst st) (fst kv) (snd kv) placeholders (snd st) config)
      in fold step placeholderMap (fold step arrayPlaceholderMap (tmpl, placeholderPrMap)))"

definition indexKey :: "string \<Rightarrow> nat \<Rightarrow> string" where
  "indexKey k i = k @ ''['' @ Number_toString (int i) @ '']''"

definition fillArrayPlaceholders ::
  "(string \<times> string) list \<Rightarrow> string \<Rightarrow> string list \<Rightarrow> (string \<times> string) list" where
  "fillArrayPlaceholders placeholderMap k vals =
     (if length vals = 0 then placeholderMap
      else Map_set (k @ ''[*]'') (join '', '' vals)
             (fold (\<lambda>i m. Map_set (indexKey k i) (vals ! i) m) [0..<length vals] placeholderMap))"

definition fillReviewPlaceholders ::
  "('t, 'r, 's, 'c) externals \<Rightarrow> (string \<times> string) list \<Rightarrow> string \<Rightarrow> 'c list
     \<Rightarrow> (string \<times> string) list" where
  "fillReviewPlaceholders E placeholderMap parentKey vals =
     (if length vals = 0 then placeholderMap
      else fold (\<lambda>childKey m.
             Map_set (parentKey @ ''[*].'' @ childKey)
               (join '', '' (map (\<lambda>v. commentInfoField E v childKey) vals))
               (fold (\<lambda>i m'. Map_set (indexKey parentKey i @ ''.'' @ childKey)
                               (commentInfoField E (vals ! i) childKey) m')
                  [0..<length vals] m))
             (commentInfoKeys E) placeholderMap)"

definition fillChildPrPlaceholders ::
  "('t, 'r, 's, 'c) externals \<Rightarrow> (string \<times> string) list \<Rightarrow> string \<Rightarrow> 'c PullRequestInfo list
     \<Rightarrow> (string \<times> string) list" where
  "fillChildPrPlaceholders E placeholderMap parentKey vals =
     (if length vals = 0 then placeholderMap
      else fold (\<lambda>childKey m.
             Map_set (parentKey @ ''[*].'' @ childKey)
               (join '', '' (map (\<lambda>v. pullRequestInfoField E v childKey) vals))
               (fold (\<lambda>i m'. Map_set (indexKey parentKey i @ ''.'' @ childKey)
                               (pullRequestInfoField E (vals ! i) childKey) m')
                  [0..<length vals] m))
             (pullRequestInfoKeys E) placeholderMap)"

definition orEmpty :: "string option \<Rightarrow> string" where
  "orEmpty v = (case v of None \<Rightarrow> [] | Some s \<Rightarrow> s)"

text \<open>
  \<open>arrayPlaceholderMap\<close> of \<open>fillPrTemplate\<close>, in the order in which the source fills
  it: the reviews, the referenced pull requests, and then the assignees, the requested
  reviewers and the approvers, whose calls stand between the scalar placeholders.
\<close>

definition prArrayPlaceholders ::
  "('t, 'r, 's, 'c) externals \<Rightarrow> 'c heap \<Rightarrow> 'c PullRequestData \<Rightarrow> (string \<times> string) list" where
  "prArrayPlaceholders E h pr =
     fillArrayPlaceholders
       (fillArrayPlaceholders
          (fillArrayPlaceholders
             (fillChildPrPlaceholders E
                (fillReviewPlaceholders E [] ''REVIEWS''
                   (case reviews pr of None \<Rightarrow> [] | Some rs \<Rightarrow> rs))
                ''REFERENCED''
                (map (\<lambda>child. PullRequestInfo.truncate (h ! child))
                   (case childPrs pr of None \<Rightarrow> [] | Some cs \<Rightarrow> cs)))
             ''ASSIGNEES'' (assignees pr))
          ''REVIEWERS'' (requestedReviewers pr))
       ''APPROVERS'' (approvedReviewers pr)"

definition fillPrTemplate ::
  "('t, 'r, 's, 'c) externals \<Rightarrow> 'c heap \<Rightarrow> 'c PullRequestData \<Rightarrow> string
     \<Rightarrow> (string \<times> 't Placeholder list) list \<Rightarrow> (string \<times> string list) list
     \<Rightarrow> ('t, 'r, 's) Configuration \<Rightarrow> string \<times> (string \<times> string list) list" where
  "fillPrTemplate E h pr tmpl placeholders placeholderPrMap config =
     (let arrayPlaceholderMap = prArrayPlaceholders E h pr;
          placeholderMap = Map_of_sets
            [(''NUMBER'', Number_toString (number pr)),
             (''TITLE'', title pr),
             (''URL'', htmlURL pr),
             (''STATUS'', status pr),
             (''CREATED_AT'', createdAt pr),
             (''MERGED_AT'', orEmpty (mergedAt pr)),
             (''MERGE_SHA'', mergeCommitSha pr),
             (''AUTHOR'', author pr),
             (''LABELS'', join '', '' (filter (\<lambda>l. \<not> prefix ''--rcba-'' l) (labels pr))),
             (''MILESTONE'', orEmpty (milestone pr)),
             (''BODY'', body pr),
             (''ASSIGNEES'', join '', '' (assignees pr)),
             (''REVIEWERS'', join '', '' (requestedReviewers pr)),
             (''APPROVERS'', join '', '' (approvedReviewers pr)),
             (''BRANCH'', orEmpty (branch pr)),
             (''BASE_BRANCH'', baseBranch pr)] [];
          r = replacePlaceholders E tmpl arrayPlaceholderMap placeholderMap placeholders
                (Some placeholderPrMap) config
      in (fst r, case snd r of None \<Rightarrow> placeholderPrMap | Some m \<Rightarrow> m))"

definition fillAdditionalPlaceholders ::
  "('t, 'r, 's, 'c) externals \<Rightarrow> ('t, 'r, 's) ReleaseNotesOptions \<Rightarrow> (string \<times> string) list
     \<Rightarrow> (string \<times> string) list" where
  "fillAdditionalPlaceholders E options placeholderMap =
     Map_of_sets
       [(''OWNER'', owner options),
        (''REPO'', repo options),
        (''FROM_TAG'', tag_name (fromTag options)),
        (''FROM_TAG_DATE'', orEmpty (date (fromTag options))),
        (''TO_TAG'', tag_name (toTag options)),
        (''TO_TAG_DATE'', orEmpty (date (toTag options))),
        (''DAYS_SINCE'',
           (case date (fromTag options) of
              None \<Rightarrow> []
            | Some fromDate \<Rightarrow>
                (case date (toTag options) of
                   None \<Rightarrow> []
                 | Some toDate \<Rightarrow> diffDays E toDate fromDate))),
        (''RELEASE_DIFF'',
           ''https://github.com/'' @ owner options @ ''/'' @ repo options @ ''/compare/''
             @ tag_name (fromTag options) @ ''...'' @ tag_name (toTag options))]
       placeholderMap"

definition replaceEmptyTemplate ::
  "('t, 'r, 's, 'c) externals \<Rightarrow> string \<Rightarrow> ('t, 'r, 's) ReleaseNotesOptions \<Rightarrow> string" where
  "replaceEmptyTemplate E tmpl options =
     fst (replacePlaceholders E tmpl [] (fillAdditionalPlaceholders E options [])
            (customPlaceholders (configuration options)) None (configuration options))"

definition replacePrPlaceholders ::
  "('t, 'r, 's, 'c) externals \<Rightarrow> string \<Rightarrow> (string \<times> string list) list
     \<Rightarrow> ('t, 'r, 's) Configuration \<Rightarrow> string" where
  "replacePrPlaceholders E tmpl placeholderPrMap config =
     fold (\<lambda>kv transformed.
             replaceAll
               (fold (\<lambda>i t. replaceAll t (placeholderToken (indexKey (fst kv) i))
                               (trimmed E config (snd kv ! i)))
                  [0..<length (snd kv)] transformed)
               (placeholderToken (fst kv @ ''[*]'')) (join [] (snd kv)))
       placeholderPrMap tmpl"

text \<open>
  The two cleanup passes build a regular expression with the flags \<open>gu\<close> and call
  \<open>replaceAll\<close> with it, which for a global expression is \<open>replace\<close>.
\<close>

definition backslash :: string where
  "backslash = [CHR 0x5C]"

definition cleanupPrPlaceholders ::
  "('t, 'r, 's, 'c) externals \<Rightarrow> string \<Rightarrow> (string \<times> 't Placeholder list) list \<Rightarrow> string" where
  "cleanupPrPlaceholders E tmpl placeholders =
     fold (\<lambda>entry transformed.
             fold (\<lambda>ph t.
                     re_replace
                       (newRegExp E
                          (backslash @ ''$'' @ backslash @ ''{'' @ backslash @ ''{''
                             @ placeholder_name ph
                             @ ''(?:'' @ backslash @ ''[.+?'' @ backslash @ ''])?''
                             @ backslash @ ''}'' @ backslash @ ''}'')
                          ''gu'')
                       t [])
               (snd entry) transformed)
       placeholders tmpl"

definition cleanupPlaceholders :: "('t, 'r, 's, 'c) externals \<Rightarrow> string \<Rightarrow> string" where
  "cleanupPlaceholders E tmpl =
     fold (\<lambda>phs t.
             re_replace
               (newRegExp E
                  (backslash @ ''$'' @ backslash @ ''{'' @ backslash @ ''{'' @ phs
                     @ backslash @ ''[.+?'' @ backslash @ '']'' @ backslash @ ''..*?''
                     @ backslash @ ''}'' @ backslash @ ''}'')
                  ''gu'')
               t [])
       [''REVIEWS'', ''REFERENCED'', ''ASSIGNEES'', ''REVIEWERS'', ''APPROVERS''] tmpl"

definition transform :: "string \<Rightarrow> RegexTransformer list \<Rightarrow> string" where
  "transform filled ts =
     fold (\<lambda>t transformed.
             case pattern t of
               None \<Rightarrow> transformed
             | Some re \<Rightarrow> re_replace re transformed (target t))
       ts filled"

subsection \<open>Rendering the pull requests\<close>

text \<open>\<open>transformedMap\<close> is keyed by the pull request object, that is by its address.\<close>

definition renderStep ::
  "('t, 'r, 's, 'c) externals \<Rightarrow> ('t, 'r, 's) Configuration \<Rightarrow> 'c heap
     \<Rightarrow> (string \<times> 't Placeholder list) list \<Rightarrow> RegexTransformer list \<Rightarrow> addr
     \<Rightarrow> (addr \<times> string) list \<times> (string \<times> string list) list
     \<Rightarrow> (addr \<times> string) list \<times> (string \<times> string list) list" where
  "renderStep E config h placeholders validatedTransformers pr st =
     (let r = fillPrTemplate E h (h ! pr) (pr_template config) placeholders (snd st) config
      in (Map_set pr (transform (fst r) validatedTransformers) (fst st), snd r))"

subsection \<open>Categories\<close>

definition excludedFromCategory ::
  "('t, 'r, 's, 'c) externals \<Rightarrow> 'r Category \<Rightarrow> 'c PullRequestInfo \<Rightarrow> bool" where
  "excludedFromCategory E category pr =
     (case exclude_labels category of
        None \<Rightarrow> False
      | Some ex \<Rightarrow> haveCommonElementsArr (map (toLocaleLowerCase E) ex) (labels pr))"

text \<open>The value of \<open>matched\<close> at the end of one round of the loop over the categories.\<close>

definition categoryMatched ::
  "('t, 'r, 's, 'c) externals \<Rightarrow> 'r Category \<Rightarrow> 'c PullRequestInfo \<Rightarrow> bool" where
  "categoryMatched E category pr =
     (if exhaustive category = Some True
         \<and> (category_labels category \<noteq> None \<or> rules category \<noteq> None)
      then
        (let matched =
               (case category_labels category of
                  None \<Rightarrow> False
                | Some ls \<Rightarrow> haveEveryElementsArr (map (toLocaleLowerCase E) ls) (labels pr));
             exhaustive_rules' =
               (case exhaustive_rules category of None \<Rightarrow> True | Some b \<Rightarrow> b)
         in case rules category of
              None \<Rightarrow> matched
            | Some rs \<Rightarrow> (if matched then matchesRules E rs pr exhaustive_rules' else matched))
      else
        (let matched =
               (case category_labels category of
                  None \<Rightarrow> False
                | Some ls \<Rightarrow> haveCommonElementsArr (map (toLocaleLowerCase E) ls) (labels pr));
             exhaustive_rules' =
               (case exhaustive_rules category of None \<Rightarrow> False | Some b \<Rightarrow> b)
         in case rules category of
              None \<Rightarrow> matched
            | Some rs \<Rightarrow> (if \<not> matched then matchesRules E rs pr exhaustive_rules' else matched)))"

text \<open>
  The loop over \<open>categorized\<close> for one pull request: a category whose exclude labels
  match is passed over, a category that matches receives the body, and \<open>matchedOnce\<close>
  is carried along. The categories are distinct objects, so the \<open>Map\<close> keyed by
  them is the list of the categories with their bodies.
\<close>

fun matchCategories ::
  "('t, 'r, 's, 'c) externals \<Rightarrow> 'c PullRequestInfo \<Rightarrow> string \<Rightarrow> ('r Category \<times> string list) list
     \<Rightarrow> bool \<Rightarrow> ('r Category \<times> string list) list \<times> bool" where
  "matchCategories E pr b [] matchedOnce = ([], matchedOnce)"
| "matchCategories E pr b (entry # rest) matchedOnce =
     (if excludedFromCategory E (fst entry) pr then
        (let r = matchCategories E pr b rest matchedOnce in (entry # fst r, snd r))
      else
        (let matched = categoryMatched E (fst entry) pr;
             r = matchCategories E pr b rest (matchedOnce \<or> matched)
         in ((fst entry, if matched then snd entry @ [b] else snd entry) # fst r, snd r)))"

fun pushUncategorized ::
  "string \<Rightarrow> ('r Category \<times> string list) list \<Rightarrow> ('r Category \<times> string list) list" where
  "pushUncategorized b [] = []"
| "pushUncategorized b (entry # rest) =
     (if (category_labels (fst entry) = None \<or> category_labels (fst entry) = Some [])
         \<and> rules (fst entry) = None
      then (fst entry, snd entry @ [b]) # rest
      else entry # pushUncategorized b rest)"

record 'r Buckets =
  categorized :: "('r Category \<times> string list) list"
  categorizedPrs :: "string list"
  ignoredPrs :: "string list"
  openPrs :: "string list"
  uncategorizedPrs :: "string list"

definition isIgnored ::
  "('t, 'r, 's, 'c) externals \<Rightarrow> ('t, 'r, 's) Configuration \<Rightarrow> 'c PullRequestInfo \<Rightarrow> bool" where
  "isIgnored E config pr =
     haveCommonElementsArr (map (toLocaleLowerCase E) (ignore_labels config)) (labels pr)"

definition classifyStep ::
  "('t, 'r, 's, 'c) externals \<Rightarrow> ('t, 'r, 's) Configuration \<Rightarrow> 'c heap \<Rightarrow> addr \<times> string
     \<Rightarrow> 'r Buckets \<Rightarrow> 'r Buckets" where
  "classifyStep E config h entry B =
     (let pr = PullRequestInfo.truncate (h ! fst entry); b = snd entry
      in if isIgnored E config pr then B\<lparr>ignoredPrs := ignoredPrs B @ [b]\<rparr>
         else
           (let B1 = (if status pr = ''open'' then B\<lparr>openPrs := openPrs B @ [b]\<rparr> else B);
                r = matchCategories E pr b (categorized B1) False
            in if \<not> snd r then
                 B1\<lparr>categorized := pushUncategorized b (fst r),
                    uncategorizedPrs := uncategorizedPrs B1 @ [b]\<rparr>
               else
                 B1\<lparr>categorized := fst r, categorizedPrs := categorizedPrs B1 @ [b]\<rparr>))"

definition classify ::
  "('t, 'r, 's, 'c) externals \<Rightarrow> ('t, 'r, 's) Configuration \<Rightarrow> 'c heap \<Rightarrow> (addr \<times> string) list
     \<Rightarrow> 'r Buckets" where
  "classify E config h transformedMap =
     fold (classifyStep E config h) transformedMap
       \<lparr>categorized = map (\<lambda>category. (category, [])) (categories config),
        categorizedPrs = [], ignoredPrs = [], openPrs = [], uncategorizedPrs = []\<rparr>"

subsection \<open>The document\<close>

definition newline :: string where
  "newline = [CHR 0x0A]"

definition changelogStep :: "'r Category \<times> string list \<Rightarrow> string \<Rightarrow> string" where
  "changelogStep entry changelog =
     (let category = fst entry; pullRequests = snd entry;
          titled = (if category_title category \<noteq> []
                    then changelog @ category_title category @ newline @ newline
                    else changelog)
      in if length pullRequests > 0 then
           fold (\<lambda>pr c. c @ pr @ newline) pullRequests titled @ newline
         else (case empty_content category of
                 Some content \<Rightarrow> titled @ content @ newline @ newline
               | None \<Rightarrow> changelog))"

definition joinLines :: "string list \<Rightarrow> string" where
  "joinLines prs = fold (\<lambda>pr c. c @ pr @ newline) prs []"

text \<open>
  What \<open>buildChangelog\<close> gives: the returned text and the values handed to
  \<open>core.setOutput\<close> (\<open>None\<close> when the output is not set). The output \<open>categorized\<close> is
  the object before \<open>JSON.stringify\<close>, as the list of its properties in their order: a
  key assigned again keeps its place and takes the new value.
\<close>

record Changelog =
  returned :: string
  output_categorized :: "(string \<times> string list) list option"
  output_categorized_prs :: "nat option"
  output_uncategorized_prs :: "nat option"
  output_open_prs :: "nat option"

definition categoryKey :: "'r Category \<Rightarrow> string" where
  "categoryKey category =
     (case key category of
        None \<Rightarrow> category_title category
      | Some k \<Rightarrow> (if k = [] then category_title category else k))"

definition buildChangelog ::
  "('t, 'r, 's, 'c) externals \<Rightarrow> DiffInfo \<Rightarrow> 'c heap \<Rightarrow> ('t, 'r, 's) ReleaseNotesOptions
     \<Rightarrow> Changelog" where
  "buildChangelog E diffInfo origPrs options =
     (if length origPrs = 0 then
        \<lparr>returned = replaceEmptyTemplate E (empty_template (configuration options)) options,
         output_categorized = None, output_categorized_prs = None,
         output_uncategorized_prs = None, output_open_prs = None\<rparr>
      else
        (let config = configuration options;
             sorted = sortPullRequests E origPrs [0..<length origPrs] (config_sort config);
             linked = linkReferences E config origPrs sorted;
             deduplicated = fst (dropDuplicates E config (fst linked) (snd linked));
             h = extractLabels E config (fst linked) deduplicated;
             placeholders = customPlaceholders config;
             validatedTransformers = validateTransformers E (transformers config);
             rendered = fold (renderStep E config h placeholders validatedTransformers)
                          deduplicated ([], []);
             B = classify E config h (fst rendered);
             changelog = fold changelogStep (categorized B) [];
             placeholderMap = fillAdditionalPlaceholders E options
               (Map_of_sets
                  [(''CHANGELOG'', changelog),
                   (''UNCATEGORIZED'', joinLines (uncategorizedPrs B)),
                   (''OPEN'', joinLines (openPrs B)),
                   (''IGNORED'', joinLines (ignoredPrs B)),
                   (''CATEGORIZED_COUNT'', Number_toString (int (length (categorizedPrs B)))),
                   (''UNCATEGORIZED_COUNT'', Number_toString (int (length (uncategorizedPrs B)))),
                   (''OPEN_COUNT'', Number_toString (int (length (openPrs B)))),
                   (''IGNORED_COUNT'', Number_toString (int (length (ignoredPrs B)))),
                   (''CHANGED_FILES'', Number_toString (changedFiles diffInfo)),
                   (''ADDITIONS'', Number_toString (additions diffInfo)),
                   (''DELETIONS'', Number_toString (deletions diffInfo)),
                   (''CHANGES'', Number_toString (changes diffInfo)),
                   (''COMMITS'', Number_toString (commits diffInfo))] []);
             filled = replacePlaceholders E (template config) [] placeholderMap placeholders
                        (Some (snd rendered)) config;
             placeholderPrMap = (case snd filled of None \<Rightarrow> snd rendered | Some m \<Rightarrow> m)
         in \<lparr>returned =
               cleanupPlaceholders E
                 (cleanupPrPlaceholders E
                    (replacePrPlaceholders E (fst filled) placeholderPrMap config)
                    placeholders),
             output_categorized =
               Some (propertyOrder
                 (Map_of_sets (map (\<lambda>entry. (categoryKey (fst entry), snd entry)) (categorized B))
                    [])),
             output_categorized_prs = Some (length (categorizedPrs B)),
             output_uncategorized_prs = Some (length (uncategorizedPrs B)),
             output_open_prs =
               (if length (openPrs B) > 0 then Some (length (openPrs B)) else None)\<rparr>))"

section \<open>Keys of the stages\<close>

text \<open>The key that the duplicate stage computes for the pull request at an address.\<close>

definition duplicateKey ::
  "('t, 'r, 's, 'c) externals \<Rightarrow> 'c heap \<Rightarrow> RegexTransformer \<Rightarrow> addr \<Rightarrow> string option" where
  "duplicateKey E h extractor pr =
     firstExtracted
       (extractValues E (PullRequestInfo.truncate (h ! pr)) extractor ''dupliate_filter'')"

text \<open>
  The parent that the reference stage finds for a pull request: the extracted text,
  read as a number, looked up among the numbers of the pull requests.
\<close>

definition referencedParent ::
  "('t, 'r, 's, 'c) externals \<Rightarrow> RegexTransformer \<Rightarrow> (int \<times> addr) list \<Rightarrow> 'c PullRequestInfo
     \<Rightarrow> addr option" where
  "referencedParent E ref mapped pr =
     (case firstExtracted (extractValues E pr ref ''reference'') of
        None \<Rightarrow> None
      | Some x \<Rightarrow> (case parseInt E x of None \<Rightarrow> None | Some foundNumber \<Rightarrow> Map_get mapped foundNumber))"

section \<open>A concrete environment for evaluation\<close>

text \<open>
  The regular expression \<open>/^p/\<close> for a literal text \<open>p\<close>: \<open>replace\<close> rewrites the prefix
  \<open>p\<close> when the value starts with it and returns the value as it is otherwise, and \<open>match\<close>
  gives the one match or \<open>null\<close>.
\<close>

definition prefixRegExp :: "string \<Rightarrow> RegExp" where
  "prefixRegExp p =
     \<lparr>re_replace = (\<lambda>v t. if prefix p v
                            then getSubstitution p [] (drop (length p) v) t @ drop (length p) v
                            else v),
      re_match = (\<lambda>v. if prefix p v then Some [Some p] else None)\<rparr>"

text \<open>An extractor with the method \<open>replace\<close> on the body, as \<open>validateTransformer\<close> gives it.\<close>

definition replaceExtractor :: "string \<Rightarrow> string \<Rightarrow> RegexTransformer" where
  "replaceExtractor p t =
     \<lparr>pattern = Some (prefixRegExp p), target = t, onProperty = None,
      extract_method = Some ''replace'', onEmpty = None\<rparr>"

definition isWhiteSpace :: "char \<Rightarrow> bool" where
  "isWhiteSpace c = (c \<in> set [CHR 0x20, CHR 0x09, CHR 0x0A, CHR 0x0B, CHR 0x0C, CHR 0x0D])"

definition trimAscii :: "string \<Rightarrow> string" where
  "trimAscii v = rev (dropWhile isWhiteSpace (rev (dropWhile isWhiteSpace v)))"

definition lowerAscii :: "string \<Rightarrow> string" where
  "lowerAscii v =
     map (\<lambda>c. case map_of (zip ''ABCDEFGHIJKLMNOPQRSTUVWXYZ'' ''abcdefghijklmnopqrstuvwxyz'') c of
                None \<Rightarrow> c
              | Some l \<Rightarrow> l) v"

text \<open>\<open>parseInt\<close> on decimal numerals: white space, a sign, then the digits.\<close>

definition parseIntDecimal :: "string \<Rightarrow> int option" where
  "parseIntDecimal v =
     (let s1 = dropWhile isWhiteSpace v;
          negative = (case s1 of [] \<Rightarrow> False | c # r \<Rightarrow> c = CHR ''-'');
          s2 = (case s1 of [] \<Rightarrow> [] | c # r \<Rightarrow> if c = CHR ''-'' \<or> c = CHR ''+'' then r else s1);
          ds = takeWhile (\<lambda>c. c \<in> set ''0123456789'') s2
      in if ds = [] then None
         else Some ((if negative then - 1 else 1)
                      * foldl (\<lambda>acc c. 10 * acc + (of_char c - 48)) 0 ds))"

text \<open>
  The environment of the examples: a configured transformer is already in its validated
  form, a rule is a predicate on the pull request, the sort is by ascending number,
  properties are read from the body, and no comment or pull request field is listed.
  The examples use ASCII texts, decimal numerals and tags without dates, and their
  templates leave no token for the cleanup passes, so that the expressions of these
  passes, given here as one that matches nothing, and the difference of the dates are
  not consulted.
\<close>

definition neverRegExp :: RegExp where
  "neverRegExp = \<lparr>re_replace = (\<lambda>v t. v), re_match = (\<lambda>v. None)\<rparr>"

definition exampleExternals ::
  "(RegexTransformer, unit PullRequestInfo \<Rightarrow> bool, unit, unit) externals" where
  "exampleExternals =
     \<lparr>validateTransformer = Some,
      sortPullRequests = (\<lambda>h prs s. sort_key (\<lambda>pr. number (h ! pr)) prs),
      retrieveProperty = (\<lambda>pr prop usecase. body pr),
      matchesRules = (\<lambda>rs pr ex. if ex then list_all (\<lambda>r. r pr) rs else list_ex (\<lambda>r. r pr) rs),
      commentInfoKeys = [],
      commentInfoField = (\<lambda>c k. []),
      pullRequestInfoKeys = [],
      pullRequestInfoField = (\<lambda>pr k. []),
      toLocaleLowerCase = lowerAscii,
      trim = trimAscii,
      parseInt = parseIntDecimal,
      newRegExp = (\<lambda>src flags. neverRegExp),
      diffDays = (\<lambda>toDate fromDate. ''0'')\<rparr>"

definition examplePr :: "int \<Rightarrow> string \<Rightarrow> string list \<Rightarrow> unit PullRequestData" where
  "examplePr n b ls =
     \<lparr>number = n, title = ''change'', htmlURL = [], baseBranch = ''main'', branch = None,
      createdAt = [], mergedAt = None, mergeCommitSha = [], author = ''octocat'',
      labels = ls, milestone = None, body = b, assignees = [], requestedReviewers = [],
      approvedReviewers = [], reviews = None, status = ''merged'', childPrs = None\<rparr>"

definition exampleConfig :: "(RegexTransformer, unit PullRequestInfo \<Rightarrow> bool, unit) Configuration" where
  "exampleConfig =
     \<lparr>config_sort = (), template = ''${{CHANGELOG}}'', pr_template = ''- ${{TITLE}}'',
      empty_template = ''No changes.'', categories = [], ignore_labels = [],
      label_extractor = [], duplicate_filter = None, reference = None, transformers = [],
      custom_placeholders = None, trim_values = False\<rparr>"

definition exampleOptions ::
  "(RegexTransformer, unit PullRequestInfo \<Rightarrow> bool, unit) ReleaseNotesOptions" where
  "exampleOptions =
     \<lparr>owner = ''octo'', repo = ''demo'', fromTag = \<lparr>tag_name = ''v1'', date = None\<rparr>,
      toTag = \<lparr>tag_name = ''v2'', date = None\<rparr>, configuration = exampleConfig\<rparr>"

definition exampleCategory :: "(unit PullRequestInfo \<Rightarrow> bool) Category" where
  "exampleCategory =
     \<lparr>key = None, category_title = ''## Changes'', category_labels = None, exclude_labels = None,
      rules = None, exhaustive = None, exhaustive_rules = None, empty_content = None\<rparr>"

text \<open>
  Four pull requests for the duplicate stage with the filter \<open>/^dup:/\<close> and an empty
  target: the first two give the key \<open>7\<close>, the third gives no key and the fourth gives
  the key \<open>other\<close>.
\<close>

definition duplicatesExample :: "unit heap" where
  "duplicatesExample =
     [examplePr 1 ''dup:7'' [], examplePr 2 ''dup:7'' [], examplePr 3 ''dup:'' [],
      examplePr 4 ''other'' []]"

text \<open>
  Three pull requests for the reference stage with the extractor \<open>/^Closes #/\<close> and an
  empty target: number 3 refers to number 3, which is itself, number 5 refers to number 3,
  and number 7 has no reference.
\<close>

definition referencesExample :: "unit heap" where
  "referencesExample =
     [examplePr 3 ''Closes #3'' [], examplePr 5 ''Closes #3'' [], examplePr 7 ''no reference'' []]"

definition referencesConfig ::
  "(RegexTransformer, unit PullRequestInfo \<Rightarrow> bool, unit) Configuration" where
  "referencesConfig = exampleConfig\<lparr>reference := Some (replaceExtractor ''Closes #'' [])\<rparr>"

text \<open>
  Categories for the examples: one that is exhaustive and has a rule but no labels, one
  that is exhaustive on the label \<open>bug\<close> and excludes the label \<open>wip\<close>, and three pull
  requests of which the last carries the ignored label \<open>skip\<close>.
\<close>

definition rulesOnlyCategory :: "(unit PullRequestInfo \<Rightarrow> bool) Category" where
  "rulesOnlyCategory =
     exampleCategory\<lparr>category_title := ''## Rules'', exhaustive := Some True,
       rules := Some [\<lambda>pr. True]\<rparr>"

definition bugCategory :: "(unit PullRequestInfo \<Rightarrow> bool) Category" where
  "bugCategory =
     exampleCategory\<lparr>category_title := ''## Bugs'', category_labels := Some [''bug''],
       exclude_labels := Some [''wip''], exhaustive := Some True\<rparr>"

definition classifyExample :: "unit heap" where
  "classifyExample =
     [examplePr 1 ''one'' [''bug''], examplePr 2 ''two'' [], examplePr 3 ''three'' [''skip'']]"

definition classifyConfig ::
  "(RegexTransformer, unit PullRequestInfo \<Rightarrow> bool, unit) Configuration" where
  "classifyConfig =
     exampleConfig\<lparr>categories := [bugCategory, exampleCategory], ignore_labels := [''skip'']\<rparr>"

text \<open>
  A rule that holds when the labels, joined by commas as \<open>retrieveProperty\<close> reads
  them, are exactly \<open>bug\<close> (the pattern \<open>^bug$\<close> on the property \<open>labels\<close>), the category
  on the label \<open>bug\<close> with this rule, and the configuration with this category in place
  of the one without a rule.
\<close>

definition onlyBugRule :: "unit PullRequestInfo \<Rightarrow> bool" where
  "onlyBugRule pr = (join '','' (labels pr) = ''bug'')"

definition strictBugCategory :: "(unit PullRequestInfo \<Rightarrow> bool) Category" where
  "strictBugCategory = bugCategory\<lparr>rules := Some [onlyBugRule]\<rparr>"

definition strictConfig ::
  "(RegexTransformer, unit PullRequestInfo \<Rightarrow> bool, unit) Configuration" where
  "strictConfig = classifyConfig\<lparr>categories := [strictBugCategory, exampleCategory]\<rparr>"

text \<open>
  The category on the label \<open>bug\<close> with a rule on the status, and the buckets before the
  first pull request is classified into this category and the one without labels and
  rules.
\<close>

definition mergedBugCategory :: "(unit PullRequestInfo \<Rightarrow> bool) Category" where
  "mergedBugCategory = bugCategory\<lparr>rules := Some [\<lambda>pr. status pr = ''merged'']\<rparr>"

definition emptyBuckets :: "(unit PullRequestInfo \<Rightarrow> bool) Buckets" where
  "emptyBuckets =
     \<lparr>categorized = [(mergedBugCategory, []), (exampleCategory, [])],
      categorizedPrs = [], ignoredPrs = [], openPrs = [], uncategorizedPrs = []\<rparr>"

text \<open>
  A custom placeholder \<open>SHORT\<close> that reads the value of \<open>TAG\<close> and strips a leading
  \<open>v\<close> from it.
\<close>

definition shortPlaceholder :: "RegexTransformer Placeholder" where
  "shortPlaceholder =
     \<lparr>placeholder_name = ''SHORT'', source = ''TAG'', transformer = replaceExtractor ''v'' []\<rparr>"

text \<open>A custom placeholder \<open>SHORT\<close> that reads the title and strips a leading \<open>v\<close> from it.\<close>

definition titlePlaceholder :: "RegexTransformer Placeholder" where
  "titlePlaceholder =
     \<lparr>placeholder_name = ''SHORT'', source = ''TITLE'', transformer = replaceExtractor ''v'' []\<rparr>"

section \<open>Properties\<close>

section \<open>The environment of the examples\<close>

lemma exampleExternals_fields:
  "validateTransformer exampleExternals = Some"
  "sortPullRequests exampleExternals = (\<lambda>h prs s. sort_key (\<lambda>pr. number (h ! pr)) prs)"
  "retrieveProperty exampleExternals = (\<lambda>pr prop usecase. body pr)"
  "matchesRules exampleExternals =
     (\<lambda>rs pr ex. if ex then list_all (\<lambda>r. r pr) rs else list_ex (\<lambda>r. r pr) rs)"
  "toLocaleLowerCase exampleExternals = lowerAscii"
  "trim exampleExternals = trimAscii"
  "parseInt exampleExternals = parseIntDecimal"
  by (simp_all add: exampleExternals_def)

section \<open>The duplicate stage\<close>

lemma dedupStep_key:
  "dedupStep E h x a (m, u) =
     (case duplicateKey E h x a of Some k \<Rightarrow> (Map_set k a m, u) | None \<Rightarrow> (m, u @ [a]))"
  by (simp add: dedupStep_def duplicateKey_def)

lemma dedup_fold_unmatched:
  "snd (fold (dedupStep E h x) prs (m, u)) = u @ filter (\<lambda>a. duplicateKey E h x a = None) prs"
  by (induction prs arbitrary: m u) (auto simp: dedupStep_key split: option.splits)

lemma dedup_fold_lookup:
  "map_of (fst (fold (dedupStep E h x) prs (m, u))) k =
     (if filter (\<lambda>a. duplicateKey E h x a = Some k) prs = [] then map_of m k
      else Some (last (filter (\<lambda>a. duplicateKey E h x a = Some k) prs)))"
  by (induction prs arbitrary: m u) (auto simp: dedupStep_key AList.update_conv' split: option.splits)

lemma dedup_fold_distinct:
  "distinct (map fst m) \<Longrightarrow> distinct (map fst (fst (fold (dedupStep E h x) prs (m, u))))"
  by (induction prs arbitrary: m u) (auto simp: dedupStep_key AList.distinct_update split: option.splits)

lemma dedup_fold_keyed:
  "list_all (\<lambda>(k, a). duplicateKey E h x a = Some k) m \<Longrightarrow>
   list_all (\<lambda>(k, a). duplicateKey E h x a = Some k) (fst (fold (dedupStep E h x) prs (m, u)))"
proof (induction prs arbitrary: m u)
  case Nil
  then show ?case by simp
next
  case (Cons a prs)
  have upd: "list_all (\<lambda>(k, a). duplicateKey E h x a = Some k) (Map_set k a m)"
    if "duplicateKey E h x a = Some k" for k
    using Cons.prems that by (induction m) auto
  show ?case
    using Cons.IH Cons.prems upd by (auto simp: dedupStep_key split: option.splits)
qed

lemma filter_values_by_key:
  "distinct (map fst m) \<Longrightarrow> list_all (\<lambda>(k, a). kf a = Some k) m \<Longrightarrow>
   filter (\<lambda>a. kf a = Some k) (map snd m) = (case map_of m k of None \<Rightarrow> [] | Some a \<Rightarrow> [a])"
proof (induction m)
  case Nil
  then show ?case by simp
next
  case (Cons p m)
  obtain k' a' where p: "p = (k', a')" by (cases p)
  show ?case
  proof (cases "k' = k")
    case True
    with Cons p have "map_of m k = None" by (auto simp: map_of_eq_None_iff image_iff)
    with Cons p True show ?thesis by (auto split: option.splits)
  next
    case False
    with Cons p show ?thesis by auto
  qed
qed

lemma filter_values_no_key:
  "list_all (\<lambda>(k, a). kf a = Some k) m \<Longrightarrow> filter (\<lambda>a. kf a = None) (map snd m) = []"
  by (induction m) auto

lemma deduplicatedPRs_keyed:
  assumes "filter (\<lambda>a. duplicateKey E h x a = Some k) prs \<noteq> []"
  shows "filter (\<lambda>a. duplicateKey E h x a = Some k) (deduplicatedPRs E h x prs)
           = [last (filter (\<lambda>a. duplicateKey E h x a = Some k) prs)]"
proof -
  let ?st = "fold (dedupStep E h x) prs ([], [])"
  have d: "distinct (map fst (fst ?st))" by (rule dedup_fold_distinct) simp
  have kk: "list_all (\<lambda>(k, a). duplicateKey E h x a = Some k) (fst ?st)"
    by (rule dedup_fold_keyed) simp
  have u: "snd ?st = filter (\<lambda>a. duplicateKey E h x a = None) prs"
    using dedup_fold_unmatched[of E h x prs "[]" "[]"] by simp
  have l: "map_of (fst ?st) k = Some (last (filter (\<lambda>a. duplicateKey E h x a = Some k) prs))"
    using assms dedup_fold_lookup[of E h x prs "[]" "[]" k] by simp
  have "filter (\<lambda>a. duplicateKey E h x a = Some k) (snd ?st) = []"
    unfolding u by (auto simp: filter_empty_conv)
  with filter_values_by_key[OF d kk, of k] l show ?thesis
    by (simp add: deduplicatedPRs_def Let_def)
qed

lemma deduplicatedPRs_unkeyed:
  "filter (\<lambda>a. duplicateKey E h x a = None) (deduplicatedPRs E h x prs)
     = filter (\<lambda>a. duplicateKey E h x a = None) prs"
proof -
  let ?st = "fold (dedupStep E h x) prs ([], [])"
  have kk: "list_all (\<lambda>(k, a). duplicateKey E h x a = Some k) (fst ?st)"
    by (rule dedup_fold_keyed) simp
  have u: "snd ?st = filter (\<lambda>a. duplicateKey E h x a = None) prs"
    using dedup_fold_unmatched[of E h x prs "[]" "[]"] by simp
  show ?thesis
    using filter_values_no_key[OF kk] by (simp add: deduplicatedPRs_def Let_def u)
qed


lemma dropDuplicates_valid:
  assumes "duplicate_filter config = Some f" and "validateTransformer E f = Some x"
  shows "dropDuplicates E config h prs =
           (sortPullRequests E h (deduplicatedPRs E h x prs) (config_sort config),
            Some (int (length prs) - int (length (deduplicatedPRs E h x prs))))"
  using assms by (simp add: dropDuplicates_def Let_def)

text \<open>
  C1. With a valid \<open>duplicate_filter\<close> and a sort that permutes its input, the stage
  gives the sorted survivors; for every key that some pull request yields, the only
  pull request with that key in the output is the last one in processing order that
  yields it; the pull requests without a key are all retained; and the reported number
  is the length of the input minus the length of the output.
\<close>

theorem deduplicator_keeps_last_per_key:
  assumes filter_set: "duplicate_filter config = Some f"
    and valid: "validateTransformer E f = Some x"
    and sort_perm: "\<forall>xs. mset (sortPullRequests E h xs (config_sort config)) = mset xs"
  shows "fst (dropDuplicates E config h prs)
           = sortPullRequests E h (deduplicatedPRs E h x prs) (config_sort config)
       \<and> (\<forall>k. (\<exists>a \<in> set prs. duplicateKey E h x a = Some k) \<longrightarrow>
              filter (\<lambda>a. duplicateKey E h x a = Some k) (fst (dropDuplicates E config h prs))
                = [last (filter (\<lambda>a. duplicateKey E h x a = Some k) prs)])
       \<and> mset (filter (\<lambda>a. duplicateKey E h x a = None) (fst (dropDuplicates E config h prs)))
           = mset (filter (\<lambda>a. duplicateKey E h x a = None) prs)
       \<and> snd (dropDuplicates E config h prs)
           = Some (int (length prs) - int (length (fst (dropDuplicates E config h prs))))"
proof -
  let ?d = "deduplicatedPRs E h x prs"
  let ?out = "sortPullRequests E h ?d (config_sort config)"
  have out: "fst (dropDuplicates E config h prs) = ?out"
    and removed: "snd (dropDuplicates E config h prs) = Some (int (length prs) - int (length ?d))"
    by (simp_all add: dropDuplicates_valid[OF filter_set valid])
  have perm: "mset ?out = mset ?d"
    using sort_perm by simp
  have filt: "mset (filter P ?out) = mset (filter P ?d)" for P
    by (simp add: perm)
  have keyed: "filter (\<lambda>a. duplicateKey E h x a = Some k) ?out
                 = [last (filter (\<lambda>a. duplicateKey E h x a = Some k) prs)]"
    if "\<exists>a \<in> set prs. duplicateKey E h x a = Some k" for k
  proof -
    from that have "filter (\<lambda>a. duplicateKey E h x a = Some k) prs \<noteq> []"
      by (auto simp: filter_empty_conv)
    from deduplicatedPRs_keyed[OF this] filt[of "\<lambda>a. duplicateKey E h x a = Some k"]
    show ?thesis by (simp add: mset_single_iff del: mset_filter)
  qed
  have unkeyed: "mset (filter (\<lambda>a. duplicateKey E h x a = None) ?out)
                   = mset (filter (\<lambda>a. duplicateKey E h x a = None) prs)"
    using filt[of "\<lambda>a. duplicateKey E h x a = None"] by (simp add: deduplicatedPRs_unkeyed)
  have len: "length ?out = length ?d"
    using perm by (rule mset_eq_length)
  show ?thesis
    using out removed keyed unkeyed len by simp
qed

theorem deduplicator_keeps_last_per_key_witness:
  "duplicate_filter (exampleConfig\<lparr>duplicate_filter := Some (replaceExtractor ''dup:'' [])\<rparr>)
     = Some (replaceExtractor ''dup:'' [])
   \<and> validateTransformer exampleExternals (replaceExtractor ''dup:'' [])
     = Some (replaceExtractor ''dup:'' [])
   \<and> (\<forall>xs. mset (sortPullRequests exampleExternals duplicatesExample xs ()) = mset xs)
   \<and> dropDuplicates exampleExternals
         (exampleConfig\<lparr>duplicate_filter := Some (replaceExtractor ''dup:'' [])\<rparr>)
         duplicatesExample [0, 1, 2, 3] = ([1, 2, 3], Some 1)
   \<and> filter (\<lambda>a. duplicateKey exampleExternals duplicatesExample (replaceExtractor ''dup:'' []) a
                  = Some ''7'')
        (fst (dropDuplicates exampleExternals
            (exampleConfig\<lparr>duplicate_filter := Some (replaceExtractor ''dup:'' [])\<rparr>)
            duplicatesExample [0, 1, 2, 3]))
       = [1]"
proof -
  let ?cfg = "exampleConfig\<lparr>duplicate_filter := Some (replaceExtractor ''dup:'' [])\<rparr>"
  let ?x = "replaceExtractor ''dup:'' []"
  let ?key = "duplicateKey exampleExternals duplicatesExample ?x"
  have h1: "duplicate_filter ?cfg = Some ?x"
    by simp
  have h2: "validateTransformer exampleExternals ?x = Some ?x"
    by (simp add: exampleExternals_fields)
  have h3: "\<forall>xs. mset (sortPullRequests exampleExternals duplicatesExample xs (config_sort ?cfg))
              = mset xs"
    by (simp add: exampleExternals_fields)
  have h3': "\<forall>xs. mset (sortPullRequests exampleExternals duplicatesExample xs ()) = mset xs"
    by (simp add: exampleExternals_fields)
  have r: "dropDuplicates exampleExternals ?cfg duplicatesExample [0, 1, 2, 3] = ([1, 2, 3], Some 1)"
    by code_simp
  have k: "\<exists>a \<in> set [0, 1, 2, 3]. ?key a = Some ''7''"
    by code_simp
  have l: "last (filter (\<lambda>a. ?key a = Some ''7'') [0, 1, 2, 3]) = 1"
    by code_simp
  from deduplicator_keeps_last_per_key[OF h1 h2 h3, of "[0, 1, 2, 3]"]
  have "\<forall>k. (\<exists>a \<in> set [0, 1, 2, 3]. ?key a = Some k) \<longrightarrow>
          filter (\<lambda>a. ?key a = Some k) (fst (dropDuplicates exampleExternals ?cfg duplicatesExample [0, 1, 2, 3]))
            = [last (filter (\<lambda>a. ?key a = Some k) [0, 1, 2, 3])]"
    by blast
  with k have "filter (\<lambda>a. ?key a = Some ''7'')
                 (fst (dropDuplicates exampleExternals ?cfg duplicatesExample [0, 1, 2, 3]))
                 = [last (filter (\<lambda>a. ?key a = Some ''7'') [0, 1, 2, 3])]"
    by blast
  then have f: "filter (\<lambda>a. ?key a = Some ''7'')
                 (fst (dropDuplicates exampleExternals ?cfg duplicatesExample [0, 1, 2, 3])) = [1]"
    by (simp only: l)
  show ?thesis
    using h1 h2 h3' r f by blast
qed

text \<open>
  C2 as stated fails: of two pull requests with the key \<open>7\<close> the first one (address 0)
  is dropped and the second one is kept.
\<close>

theorem first_duplicate_is_dropped:
  "duplicateKey exampleExternals duplicatesExample (replaceExtractor ''dup:'' []) 0 = Some ''7''
   \<and> duplicateKey exampleExternals duplicatesExample (replaceExtractor ''dup:'' []) 1 = Some ''7''
   \<and> fst (dropDuplicates exampleExternals
            (exampleConfig\<lparr>duplicate_filter := Some (replaceExtractor ''dup:'' [])\<rparr>)
            duplicatesExample [0, 1]) = [1]"
  by code_simp

text \<open>
  C2, amended. When several pull requests yield the same key, the one encountered last
  is in the output and is the only one there with that key, and a pull request for
  which the extractor yields no key is never dropped.
\<close>

theorem deduplicator_preserves_last_encountered:
  assumes filter_set: "duplicate_filter config = Some f"
    and valid: "validateTransformer E f = Some x"
    and sort_set: "\<forall>xs. set (sortPullRequests E h xs (config_sort config)) = set xs"
    and i: "i < length prs" and ki: "duplicateKey E h x (prs ! i) = Some k"
    and later: "filter (\<lambda>a. duplicateKey E h x a = Some k) (drop (Suc i) prs) = []"
  shows "prs ! i \<in> set (fst (dropDuplicates E config h prs))
       \<and> (\<forall>a \<in> set (fst (dropDuplicates E config h prs)).
             duplicateKey E h x a = Some k \<longrightarrow> a = prs ! i)
       \<and> (\<forall>a \<in> set prs. duplicateKey E h x a = None \<longrightarrow>
             a \<in> set (fst (dropDuplicates E config h prs)))"
proof -
  let ?P = "\<lambda>a. duplicateKey E h x a = Some k"
  let ?d = "deduplicatedPRs E h x prs"
  have out: "set (fst (dropDuplicates E config h prs)) = set ?d"
    using sort_set by (simp add: dropDuplicates_valid[OF filter_set valid])
  have split: "prs = take i prs @ prs ! i # drop (Suc i) prs"
    using i by (rule id_take_nth_drop)
  have "filter ?P prs = filter ?P (take i prs) @ [prs ! i]"
    using ki later by (subst split) simp
  then have last: "last (filter ?P prs) = prs ! i" and ne: "filter ?P prs \<noteq> []"
    by simp_all
  from deduplicatedPRs_keyed[OF ne] last have one: "filter ?P ?d = [prs ! i]"
    by simp
  then have "set (filter ?P ?d) = {prs ! i}" by simp
  then have keyed: "prs ! i \<in> set ?d" "\<forall>a \<in> set ?d. ?P a \<longrightarrow> a = prs ! i"
    by auto
  have "set (filter (\<lambda>a. duplicateKey E h x a = None) ?d)
          = set (filter (\<lambda>a. duplicateKey E h x a = None) prs)"
    by (simp only: deduplicatedPRs_unkeyed)
  then have unkeyed: "\<forall>a \<in> set prs. duplicateKey E h x a = None \<longrightarrow> a \<in> set ?d"
    by auto
  show ?thesis
    unfolding out using keyed unkeyed by blast
qed

theorem deduplicator_preserves_last_encountered_witness:
  "duplicate_filter (exampleConfig\<lparr>duplicate_filter := Some (replaceExtractor ''dup:'' [])\<rparr>)
     = Some (replaceExtractor ''dup:'' [])
   \<and> validateTransformer exampleExternals (replaceExtractor ''dup:'' [])
     = Some (replaceExtractor ''dup:'' [])
   \<and> (\<forall>xs. set (sortPullRequests exampleExternals duplicatesExample xs ()) = set xs)
   \<and> (1::nat) < length [0::nat, 1, 2, 3]
   \<and> duplicateKey exampleExternals duplicatesExample (replaceExtractor ''dup:'' []) ([0, 1, 2, 3] ! 1)
       = Some ''7''
   \<and> filter (\<lambda>a. duplicateKey exampleExternals duplicatesExample (replaceExtractor ''dup:'' []) a
                  = Some ''7'') (drop (Suc 1) [0, 1, 2, 3]) = []
   \<and> [0, 1, 2, 3] ! 1 \<in> set (fst (dropDuplicates exampleExternals
          (exampleConfig\<lparr>duplicate_filter := Some (replaceExtractor ''dup:'' [])\<rparr>)
          duplicatesExample [0, 1, 2, 3]))
   \<and> 0 \<notin> set (fst (dropDuplicates exampleExternals
          (exampleConfig\<lparr>duplicate_filter := Some (replaceExtractor ''dup:'' [])\<rparr>)
          duplicatesExample [0, 1, 2, 3]))"
proof -
  let ?cfg = "exampleConfig\<lparr>duplicate_filter := Some (replaceExtractor ''dup:'' [])\<rparr>"
  let ?x = "replaceExtractor ''dup:'' []"
  let ?key = "duplicateKey exampleExternals duplicatesExample ?x"
  have h1: "duplicate_filter ?cfg = Some ?x"
    by simp
  have h2: "validateTransformer exampleExternals ?x = Some ?x"
    by (simp add: exampleExternals_fields)
  have h3: "\<forall>xs. set (sortPullRequests exampleExternals duplicatesExample xs (config_sort ?cfg))
              = set xs"
    by (simp add: exampleExternals_fields)
  have h3': "\<forall>xs. set (sortPullRequests exampleExternals duplicatesExample xs ()) = set xs"
    by (simp add: exampleExternals_fields)
  have h4: "(1::nat) < length [0::nat, 1, 2, 3]"
    by simp
  have h5: "?key ([0, 1, 2, 3] ! 1) = Some ''7''"
    by code_simp
  have h6: "filter (\<lambda>a. ?key a = Some ''7'') (drop (Suc 1) [0, 1, 2, 3]) = []"
    by code_simp
  have r: "0 \<notin> set (fst (dropDuplicates exampleExternals ?cfg duplicatesExample [0, 1, 2, 3]))"
    by code_simp
  from deduplicator_preserves_last_encountered[OF h1 h2 h3 h4 h5 h6]
  have "[0, 1, 2, 3] ! 1 \<in> set (fst (dropDuplicates exampleExternals ?cfg duplicatesExample [0, 1, 2, 3]))"
    by blast
  then show ?thesis
    using h1 h2 h3' h4 h5 h6 r by blast
qed

section \<open>The reference stage\<close>

lemma linkStep_parent:
  "linkStep E ref mapped a (h1, r) =
     (case referencedParent E ref mapped (PullRequestInfo.truncate (h1 ! a)) of
        None \<Rightarrow> (h1, r @ [a])
      | Some p \<Rightarrow> (pushChild h1 p a, r))"
  by (simp add: linkStep_def referencedParent_def Let_def split: option.splits)

lemma truncate_childPrs_update:
  "PullRequestInfo.truncate (pr\<lparr>childPrs := c\<rparr>) = PullRequestInfo.truncate pr"
  by (simp add: PullRequestInfo.truncate_def)

lemma pushChild_info:
  "map PullRequestInfo.truncate (pushChild h p a) = map PullRequestInfo.truncate h"
proof (cases "p < length h")
  case True
  then show ?thesis
    by (simp add: pushChild_def map_update truncate_childPrs_update list_update_same_conv)
next
  case False
  then show ?thesis
    by (simp add: pushChild_def list_update_beyond)
qed

lemma pushChild_length: "length (pushChild h p a) = length h"
  by (simp add: pushChild_def)

lemma pushChild_children:
  "q < length h \<Longrightarrow>
   childPrs (pushChild h p a ! q) =
     (if q = p then Some ((case childPrs (h ! p) of None \<Rightarrow> [] | Some cs \<Rightarrow> cs) @ [a])
      else childPrs (h ! q))"
  by (simp add: pushChild_def)

lemma same_info_nth:
  assumes "map PullRequestInfo.truncate h1 = map PullRequestInfo.truncate h" and "a < length h"
  shows "PullRequestInfo.truncate (h1 ! a) = PullRequestInfo.truncate (h ! a)"
proof -
  from assms(1) have len: "length h1 = length h"
    by (rule map_eq_imp_length_eq)
  have "PullRequestInfo.truncate (h1 ! a) = map PullRequestInfo.truncate h1 ! a"
    using assms(2) len by simp
  also have "\<dots> = map PullRequestInfo.truncate h ! a"
    by (simp only: assms(1))
  also have "\<dots> = PullRequestInfo.truncate (h ! a)"
    using assms(2) by simp
  finally show ?thesis .
qed

lemma link_fold:
  assumes "map PullRequestInfo.truncate h1 = map PullRequestInfo.truncate h"
    and "\<forall>a \<in> set xs. a < length h"
  shows "snd (fold (linkStep E ref mapped) xs (h1, r))
           = r @ filter (\<lambda>a. referencedParent E ref mapped (PullRequestInfo.truncate (h ! a)) = None) xs
       \<and> (\<forall>q < length h.
            childPrs (fst (fold (linkStep E ref mapped) xs (h1, r)) ! q) =
              (if filter (\<lambda>a. referencedParent E ref mapped (PullRequestInfo.truncate (h ! a)) = Some q) xs = []
               then childPrs (h1 ! q)
               else Some ((case childPrs (h1 ! q) of None \<Rightarrow> [] | Some cs \<Rightarrow> cs)
                      @ filter (\<lambda>a. referencedParent E ref mapped (PullRequestInfo.truncate (h ! a)) = Some q) xs)))"
  using assms
proof (induction xs arbitrary: h1 r)
  case Nil
  then show ?case by simp
next
  case (Cons a xs)
  let ?parent = "\<lambda>a. referencedParent E ref mapped (PullRequestInfo.truncate (h ! a))"
  have a: "a < length h" and xs: "\<forall>a \<in> set xs. a < length h"
    using Cons.prems(2) by simp_all
  have len: "length h1 = length h"
    using Cons.prems(1) by (rule map_eq_imp_length_eq)
  have pa: "referencedParent E ref mapped (PullRequestInfo.truncate (h1 ! a)) = ?parent a"
    by (simp only: same_info_nth[OF Cons.prems(1) a])
  show ?case
  proof (cases "?parent a")
    case None
    then have step: "linkStep E ref mapped a (h1, r) = (h1, r @ [a])"
      by (simp add: linkStep_parent pa)
    from Cons.IH[OF Cons.prems(1) xs, of "r @ [a]"] None show ?thesis
      by (simp add: step)
  next
    case (Some p)
    then have step: "linkStep E ref mapped a (h1, r) = (pushChild h1 p a, r)"
      by (simp add: linkStep_parent pa)
    have info: "map PullRequestInfo.truncate (pushChild h1 p a) = map PullRequestInfo.truncate h"
      by (simp add: pushChild_info Cons.prems(1))
    have ch: "childPrs (pushChild h1 p a ! q) =
               (if q = p then Some ((case childPrs (h1 ! p) of None \<Rightarrow> [] | Some cs \<Rightarrow> cs) @ [a])
                else childPrs (h1 ! q))" if "q < length h" for q
      using that len by (simp add: pushChild_children)
    from Cons.IH[OF info xs, of r] Some show ?thesis
      by (simp add: step ch)
  qed
qed

lemma buildMapped_fold_lookup:
  "map_of (fold (\<lambda>pr mapped. Map_set (number (h ! pr)) pr mapped) prs m) n =
     (if filter (\<lambda>a. number (h ! a) = n) prs = [] then map_of m n
      else Some (last (filter (\<lambda>a. number (h ! a) = n) prs)))"
  by (induction prs arbitrary: m) (auto simp: AList.update_conv')

lemma filter_distinct_key:
  "distinct (map f xs) \<Longrightarrow> a \<in> set xs \<Longrightarrow> filter (\<lambda>b. f b = f a) xs = [a]"
proof (induction xs)
  case Nil
  then show ?case by simp
next
  case (Cons x xs)
  show ?case
  proof (cases "x = a")
    case True
    with Cons.prems have "f a \<notin> f ` set xs" by simp
    then have "\<forall>b \<in> set xs. f b \<noteq> f a" by (metis imageI)
    then have "filter (\<lambda>b. f b = f a) xs = []"
      by (simp add: filter_empty_conv)
    with True show ?thesis by simp
  next
    case False
    with Cons.prems have "a \<in> set xs" "f x \<noteq> f a" by auto
    with Cons show ?thesis by simp
  qed
qed

lemma buildMapped_own_number:
  assumes "distinct (map (\<lambda>a. number (h ! a)) prs)" and "a \<in> set prs"
  shows "map_of (buildMapped h prs) (number (h ! a)) = Some a"
  using filter_distinct_key[OF assms]
  by (simp add: buildMapped_def buildMapped_fold_lookup)

lemma linkReferences_valid:
  assumes "reference config = Some r" and "validateTransformer E r = Some ref"
  shows "linkReferences E config h prs = fold (linkStep E ref (buildMapped h prs)) prs (h, [])"
  using assms by (simp add: linkReferences_def)

text \<open>
  C3 as stated fails: the pull request number 3 at address 0, whose reference yields its
  own number, is removed from the root list and is listed among its own \<open>childPrs\<close>.
\<close>

theorem self_reference_leaves_root_list:
  "firstExtracted (extractValues exampleExternals (PullRequestInfo.truncate (referencesExample ! 0))
      (replaceExtractor ''Closes #'' []) ''reference'') = Some ''3''
   \<and> parseInt exampleExternals ''3'' = Some (number (referencesExample ! 0))
   \<and> snd (linkReferences exampleExternals referencesConfig referencesExample [0, 1, 2]) = [2]
   \<and> childPrs (fst (linkReferences exampleExternals referencesConfig referencesExample [0, 1, 2]) ! 0)
       = Some [0, 1]"
  by code_simp

text \<open>
  C3, amended. With a valid \<open>reference\<close> extractor, valid addresses and distinct numbers,
  a pull request stays in the root list exactly when its extraction yields no value, a
  value that is not a number, or a number that no pull request has; every other pull
  request is appended to the \<open>childPrs\<close> of the pull request found under the extracted
  number, so that none is both kept in the root list and attached as a child. A pull
  request whose reference yields its own number is found under that number itself: it
  leaves the root list and is listed among its own \<open>childPrs\<close>.
\<close>

theorem reference_linking_attaches_self_reference:
  assumes ref_set: "reference config = Some r"
    and valid: "validateTransformer E r = Some ref"
    and addrs: "\<forall>a \<in> set prs. a < length h"
    and numbers: "distinct (map (\<lambda>a. number (h ! a)) prs)"
  shows "snd (linkReferences E config h prs)
           = filter (\<lambda>a. referencedParent E ref (buildMapped h prs) (PullRequestInfo.truncate (h ! a)) = None) prs
       \<and> (\<forall>q < length h.
            childPrs (fst (linkReferences E config h prs) ! q) =
              (if filter (\<lambda>a. referencedParent E ref (buildMapped h prs) (PullRequestInfo.truncate (h ! a)) = Some q) prs = []
               then childPrs (h ! q)
               else Some ((case childPrs (h ! q) of None \<Rightarrow> [] | Some cs \<Rightarrow> cs)
                      @ filter (\<lambda>a. referencedParent E ref (buildMapped h prs) (PullRequestInfo.truncate (h ! a)) = Some q) prs)))
       \<and> (\<forall>a \<in> set prs. \<forall>x.
            firstExtracted (extractValues E (PullRequestInfo.truncate (h ! a)) ref ''reference'') = Some x
            \<and> parseInt E x = Some (number (h ! a)) \<longrightarrow>
              a \<notin> set (snd (linkReferences E config h prs))
              \<and> (\<exists>cs. childPrs (fst (linkReferences E config h prs) ! a) = Some cs \<and> a \<in> set cs))"
proof -
  let ?mapped = "buildMapped h prs"
  let ?parent = "\<lambda>a. referencedParent E ref ?mapped (PullRequestInfo.truncate (h ! a))"
  let ?res = "linkReferences E config h prs"
  have res: "?res = fold (linkStep E ref ?mapped) prs (h, [])"
    by (rule linkReferences_valid[OF ref_set valid])
  from link_fold[OF refl addrs, of E ref ?mapped "[]"]
  have roots: "snd ?res = filter (\<lambda>a. ?parent a = None) prs"
    and children: "\<forall>q < length h. childPrs (fst ?res ! q) =
              (if filter (\<lambda>a. ?parent a = Some q) prs = [] then childPrs (h ! q)
               else Some ((case childPrs (h ! q) of None \<Rightarrow> [] | Some cs \<Rightarrow> cs)
                      @ filter (\<lambda>a. ?parent a = Some q) prs))"
    by (simp_all add: res)
  have self: "a \<notin> set (snd ?res) \<and> (\<exists>cs. childPrs (fst ?res ! a) = Some cs \<and> a \<in> set cs)"
    if a: "a \<in> set prs"
      and x: "firstExtracted (extractValues E (PullRequestInfo.truncate (h ! a)) ref ''reference'') = Some x"
      and n: "parseInt E x = Some (number (h ! a))" for a x
  proof -
    have p: "?parent a = Some a"
      using x n buildMapped_own_number[OF numbers a] by (simp add: referencedParent_def)
    then have "a \<notin> set (snd ?res)"
      by (simp add: roots)
    moreover have ne: "filter (\<lambda>b. ?parent b = Some a) prs \<noteq> []"
      using a p by (auto simp: filter_empty_conv)
    have "a \<in> set ((case childPrs (h ! a) of None \<Rightarrow> [] | Some cs \<Rightarrow> cs) @ filter (\<lambda>b. ?parent b = Some a) prs)"
      using a p by simp
    moreover have "childPrs (fst ?res ! a) =
        Some ((case childPrs (h ! a) of None \<Rightarrow> [] | Some cs \<Rightarrow> cs) @ filter (\<lambda>b. ?parent b = Some a) prs)"
      using children a addrs ne by simp
    ultimately show ?thesis by blast
  qed
  show ?thesis
    using roots children self by blast
qed

theorem reference_linking_attaches_self_reference_witness:
  "reference referencesConfig = Some (replaceExtractor ''Closes #'' [])
   \<and> validateTransformer exampleExternals (replaceExtractor ''Closes #'' [])
       = Some (replaceExtractor ''Closes #'' [])
   \<and> list_all (\<lambda>a. a < length referencesExample) [0, 1, 2]
   \<and> distinct (map (\<lambda>a. number (referencesExample ! a)) [0, 1, 2])
   \<and> firstExtracted (extractValues exampleExternals (PullRequestInfo.truncate (referencesExample ! 0))
         (replaceExtractor ''Closes #'' []) ''reference'') = Some ''3''
   \<and> parseInt exampleExternals ''3'' = Some (number (referencesExample ! 0))
   \<and> snd (linkReferences exampleExternals referencesConfig referencesExample [0, 1, 2])
       = filter (\<lambda>a. referencedParent exampleExternals (replaceExtractor ''Closes #'' [])
                        (buildMapped referencesExample [0, 1, 2])
                        (PullRequestInfo.truncate (referencesExample ! a)) = None) [0, 1, 2]
   \<and> snd (linkReferences exampleExternals referencesConfig referencesExample [0, 1, 2]) = [2]
   \<and> 0 \<notin> set (snd (linkReferences exampleExternals referencesConfig referencesExample [0, 1, 2]))
   \<and> (\<exists>cs. childPrs (fst (linkReferences exampleExternals referencesConfig referencesExample
                            [0, 1, 2]) ! 0) = Some cs \<and> 0 \<in> set cs)"
proof -
  let ?ref = "replaceExtractor ''Closes #'' []"
  let ?res = "linkReferences exampleExternals referencesConfig referencesExample [0, 1, 2]"
  have h1: "reference referencesConfig = Some ?ref"
    by (simp add: referencesConfig_def)
  have h2: "validateTransformer exampleExternals ?ref = Some ?ref"
    by (simp add: exampleExternals_fields)
  have h3: "list_all (\<lambda>a. a < length referencesExample) [0, 1, 2]"
    by code_simp
  then have h3': "\<forall>a \<in> set [0, 1, 2]. a < length referencesExample"
    by (simp only: list_all_iff)
  have h4: "distinct (map (\<lambda>a. number (referencesExample ! a)) [0, 1, 2])"
    by code_simp
  have x: "firstExtracted (extractValues exampleExternals
             (PullRequestInfo.truncate (referencesExample ! 0)) ?ref ''reference'') = Some ''3''"
    by code_simp
  have n: "parseInt exampleExternals ''3'' = Some (number (referencesExample ! 0))"
    by code_simp
  have r: "snd ?res = [2]"
    by code_simp
  note linked = reference_linking_attaches_self_reference[OF h1 h2 h3' h4]
  from linked
  have roots: "snd ?res
          = filter (\<lambda>a. referencedParent exampleExternals ?ref (buildMapped referencesExample [0, 1, 2])
                           (PullRequestInfo.truncate (referencesExample ! a)) = None) [0, 1, 2]"
    by blast
  from linked
  have "\<forall>a \<in> set [0, 1, 2]. \<forall>x.
          firstExtracted (extractValues exampleExternals
             (PullRequestInfo.truncate (referencesExample ! a)) ?ref ''reference'') = Some x
          \<and> parseInt exampleExternals x = Some (number (referencesExample ! a)) \<longrightarrow>
            a \<notin> set (snd ?res) \<and> (\<exists>cs. childPrs (fst ?res ! a) = Some cs \<and> a \<in> set cs)"
    by blast
  with x n have self: "0 \<notin> set (snd ?res)" "\<exists>cs. childPrs (fst ?res ! 0) = Some cs \<and> 0 \<in> set cs"
    by auto
  show ?thesis
    by (intro conjI) (rule h1, rule h2, rule h3, rule h4, rule x, rule n, rule roots, rule r,
        rule self(1), rule self(2))
qed

section \<open>Categories\<close>

lemma classifyStep_ignored:
  "isIgnored E config (PullRequestInfo.truncate (h ! fst entry)) \<Longrightarrow>
   classifyStep E config h entry B = B\<lparr>ignoredPrs := ignoredPrs B @ [snd entry]\<rparr>"
  by (simp add: classifyStep_def Let_def)

lemma classifyStep_counted:
  "\<not> isIgnored E config (PullRequestInfo.truncate (h ! fst entry)) \<Longrightarrow>
   length (categorizedPrs (classifyStep E config h entry B))
     + length (uncategorizedPrs (classifyStep E config h entry B))
   = Suc (length (categorizedPrs B) + length (uncategorizedPrs B))
   \<and> ignoredPrs (classifyStep E config h entry B) = ignoredPrs B"
  by (simp add: classifyStep_def Let_def)

lemma classify_fold_counts:
  "length (categorizedPrs (fold (classifyStep E config h) tm B))
     + length (uncategorizedPrs (fold (classifyStep E config h) tm B))
   = length (categorizedPrs B) + length (uncategorizedPrs B)
     + length (filter (\<lambda>entry. \<not> isIgnored E config (PullRequestInfo.truncate (h ! fst entry))) tm)
   \<and> length (ignoredPrs (fold (classifyStep E config h) tm B))
   = length (ignoredPrs B)
     + length (filter (\<lambda>entry. isIgnored E config (PullRequestInfo.truncate (h ! fst entry))) tm)"
proof (induction tm arbitrary: B)
  case Nil
  then show ?case by simp
next
  case (Cons entry tm)
  show ?case
  proof (cases "isIgnored E config (PullRequestInfo.truncate (h ! fst entry))")
    case True
    with Cons.IH[of "classifyStep E config h entry B"] show ?thesis
      by (simp add: classifyStep_ignored)
  next
    case False
    with Cons.IH[of "classifyStep E config h entry B"] classifyStep_counted[OF False, of B]
    show ?thesis
      by simp
  qed
qed

text \<open>
  C5. After the classification the number of categorized bodies plus the number of
  uncategorized bodies is the number of rendered pull requests that were not put into
  the ignored bucket, and the ignored bucket holds the others.
\<close>

theorem classifier_counts_every_record_once:
  "length (categorizedPrs (classify E config h transformedMap))
     + length (uncategorizedPrs (classify E config h transformedMap))
   = length (filter (\<lambda>entry. \<not> isIgnored E config (PullRequestInfo.truncate (h ! fst entry)))
               transformedMap)
   \<and> length (ignoredPrs (classify E config h transformedMap))
   = length (filter (\<lambda>entry. isIgnored E config (PullRequestInfo.truncate (h ! fst entry)))
               transformedMap)"
  using classify_fold_counts[of E config h transformedMap]
  by (simp add: classify_def)

theorem classifier_counts_every_record_once_witness:
  "length (categorizedPrs (classify exampleExternals classifyConfig classifyExample
      [(0, ''- one''), (1, ''- two''), (2, ''- three'')]))
     + length (uncategorizedPrs (classify exampleExternals classifyConfig classifyExample
      [(0, ''- one''), (1, ''- two''), (2, ''- three'')]))
   = length (filter (\<lambda>entry. \<not> isIgnored exampleExternals classifyConfig
                       (PullRequestInfo.truncate (classifyExample ! fst entry)))
               [(0, ''- one''), (1, ''- two''), (2, ''- three'')])
   \<and> categorizedPrs (classify exampleExternals classifyConfig classifyExample
      [(0, ''- one''), (1, ''- two''), (2, ''- three'')]) = [''- one'']
   \<and> uncategorizedPrs (classify exampleExternals classifyConfig classifyExample
      [(0, ''- one''), (1, ''- two''), (2, ''- three'')]) = [''- two'']
   \<and> ignoredPrs (classify exampleExternals classifyConfig classifyExample
      [(0, ''- one''), (1, ''- two''), (2, ''- three'')]) = [''- three'']"
proof -
  let ?B = "classify exampleExternals classifyConfig classifyExample
      [(0, ''- one''), (1, ''- two''), (2, ''- three'')]"
  have c: "categorizedPrs ?B = [''- one'']" by code_simp
  have u: "uncategorizedPrs ?B = [''- two'']" by code_simp
  have i: "ignoredPrs ?B = [''- three'']" by code_simp
  from classifier_counts_every_record_once[of exampleExternals classifyConfig classifyExample
      "[(0, ''- one''), (1, ''- two''), (2, ''- three'')]"]
  show ?thesis
    using c u i by blast
qed

text \<open>
  C4 fails on the code: in the exhaustive branch \<open>matched\<close> starts as \<open>false\<close> and the
  rules are consulted only when \<open>matched\<close> is already \<open>true\<close>, which only the labels can
  make it. A category that is exhaustive and has rules but no labels therefore matches
  no pull request, also one for which every rule holds.
\<close>

theorem exhaustive_without_labels_never_matches:
  "exhaustive category = Some True \<Longrightarrow> category_labels category = None \<Longrightarrow>
   \<not> categoryMatched E category pr"
  by (simp add: categoryMatched_def split: option.splits)

theorem exhaustive_rules_only_category_matches_nothing:
  "exhaustive rulesOnlyCategory = Some True
   \<and> category_labels rulesOnlyCategory = None
   \<and> rules rulesOnlyCategory \<noteq> None
   \<and> matchesRules exampleExternals [\<lambda>pr. True] (PullRequestInfo.truncate (classifyExample ! 1)) True
   \<and> \<not> categoryMatched exampleExternals rulesOnlyCategory (PullRequestInfo.truncate (classifyExample ! 1))
   \<and> uncategorizedPrs (classify exampleExternals
         (exampleConfig\<lparr>categories := [rulesOnlyCategory]\<rparr>) classifyExample [(1, ''- two'')])
       = [''- two'']"
proof -
  have h1: "exhaustive rulesOnlyCategory = Some True"
    by (simp add: rulesOnlyCategory_def)
  have h2: "category_labels rulesOnlyCategory = None"
    by (simp add: rulesOnlyCategory_def exampleCategory_def)
  have h3: "rules rulesOnlyCategory \<noteq> None"
    by (simp add: rulesOnlyCategory_def)
  have r: "matchesRules exampleExternals [\<lambda>pr. True]
             (PullRequestInfo.truncate (classifyExample ! 1)) True"
    by code_simp
  have u: "uncategorizedPrs (classify exampleExternals
             (exampleConfig\<lparr>categories := [rulesOnlyCategory]\<rparr>) classifyExample [(1, ''- two'')])
           = [''- two'']"
    by code_simp
  note m = exhaustive_without_labels_never_matches[OF h1 h2,
      of exampleExternals "PullRequestInfo.truncate (classifyExample ! 1)"]
  show ?thesis
    by (intro conjI) (rule h1, rule h2, rule h3, rule r, rule m, rule u)
qed

lemma matchCategories_single:
  "matchCategories E pr b [(c, bs)] False =
     (if excludedFromCategory E c pr then ([(c, bs)], False)
      else ([(c, if categoryMatched E c pr then bs @ [b] else bs)], categoryMatched E c pr))"
  by (simp add: Let_def)

lemma matchCategories_length:
  "length (fst (matchCategories E pr b cats m)) = length cats"
  by (induction cats arbitrary: m) (simp_all add: Let_def)

lemma matchCategories_nth:
  "i < length cats \<Longrightarrow>
   fst (matchCategories E pr b cats m) ! i =
     (fst (cats ! i),
      if \<not> excludedFromCategory E (fst (cats ! i)) pr \<and> categoryMatched E (fst (cats ! i)) pr
      then snd (cats ! i) @ [b] else snd (cats ! i))"
proof (induction cats arbitrary: m i)
  case Nil
  then show ?case by simp
next
  case (Cons entry cats)
  show ?case
  proof (cases i)
    case 0
    then show ?thesis by (simp add: Let_def)
  next
    case (Suc n)
    with Cons.prems have "n < length cats" by simp
    from Cons.IH[OF this] Suc show ?thesis
      by (simp add: Let_def)
  qed
qed

lemma matchCategories_matchedOnce:
  "snd (matchCategories E pr b cats m) =
     (m \<or> list_ex (\<lambda>entry. \<not> excludedFromCategory E (fst entry) pr
                            \<and> categoryMatched E (fst entry) pr) cats)"
  by (induction cats arbitrary: m) (auto simp: Let_def)

lemma truncate_labels_update:
  "PullRequestInfo.truncate (pr\<lparr>labels := ls\<rparr>) = (PullRequestInfo.truncate pr)\<lparr>labels := ls\<rparr>"
  by (simp add: PullRequestInfo.truncate_def)

lemma added_label_keeps_exhaustive_match:
  assumes ex: "exhaustive c = Some True"
    and ne: "\<not> excludedFromCategory E c pr" and m: "categoryMatched E c pr"
    and not_excluded:
      "l \<notin> set (map (toLocaleLowerCase E) (case exclude_labels c of None \<Rightarrow> [] | Some xs \<Rightarrow> xs))"
    and rules_hold:
      "\<forall>rs. rules c = Some rs \<longrightarrow>
         matchesRules E rs (pr\<lparr>labels := labels pr @ [l]\<rparr>)
           (case exhaustive_rules c of None \<Rightarrow> True | Some v \<Rightarrow> v)"
  shows "\<not> excludedFromCategory E c (pr\<lparr>labels := labels pr @ [l]\<rparr>)
       \<and> categoryMatched E c (pr\<lparr>labels := labels pr @ [l]\<rparr>)"
proof -
  let ?pr' = "pr\<lparr>labels := labels pr @ [l]\<rparr>"
  from m ex obtain ls where ls: "category_labels c = Some ls"
    and every: "haveEveryElementsArr (map (toLocaleLowerCase E) ls) (labels pr)"
    by (cases "category_labels c") (auto simp: categoryMatched_def Let_def split: option.splits if_splits)
  have every': "haveEveryElementsArr (map (toLocaleLowerCase E) ls) (labels ?pr')"
    using every by (auto simp: haveEveryElementsArr_def list_all_iff)
  have ne': "\<not> excludedFromCategory E c ?pr'"
    using ne not_excluded
    by (auto simp: excludedFromCategory_def haveCommonElementsArr_def list_ex_iff split: option.splits)
  have m': "categoryMatched E c ?pr'"
    using ex ls every' rules_hold
    by (auto simp: categoryMatched_def Let_def split: option.splits)
  show ?thesis
    using ne' m' by simp
qed

lemma classifyStep_matched:
  assumes i: "i < length (categorized B)"
    and ni: "\<not> isIgnored E config (PullRequestInfo.truncate (h ! a))"
    and ne: "\<not> excludedFromCategory E (fst (categorized B ! i)) (PullRequestInfo.truncate (h ! a))"
    and m: "categoryMatched E (fst (categorized B ! i)) (PullRequestInfo.truncate (h ! a))"
  shows "categorized (classifyStep E config h (a, b) B) ! i
           = (fst (categorized B ! i), snd (categorized B ! i) @ [b])
       \<and> categorizedPrs (classifyStep E config h (a, b) B) = categorizedPrs B @ [b]
       \<and> uncategorizedPrs (classifyStep E config h (a, b) B) = uncategorizedPrs B
       \<and> ignoredPrs (classifyStep E config h (a, b) B) = ignoredPrs B"
proof -
  let ?pr = "PullRequestInfo.truncate (h ! a)"
  have "categorized B ! i \<in> set (categorized B)"
    using i by simp
  then have once: "snd (matchCategories E ?pr b (categorized B) False)"
    using ne m by (auto simp: matchCategories_matchedOnce list_ex_iff)
  have nth: "fst (matchCategories E ?pr b (categorized B) False) ! i
               = (fst (categorized B ! i), snd (categorized B ! i) @ [b])"
    using matchCategories_nth[OF i, of E ?pr b False] ne m by simp
  show ?thesis
    using ni once nth by (simp add: classifyStep_def Let_def)
qed

lemma classifyStep_matched_conv:
  assumes i: "i < length (categorized B)"
    and listed: "snd (categorized (classifyStep E config h (a, b) B) ! i) = snd (categorized B ! i) @ [b]"
    and counted: "categorizedPrs (classifyStep E config h (a, b) B) = categorizedPrs B @ [b]"
  shows "\<not> isIgnored E config (PullRequestInfo.truncate (h ! a))
       \<and> \<not> excludedFromCategory E (fst (categorized B ! i)) (PullRequestInfo.truncate (h ! a))
       \<and> categoryMatched E (fst (categorized B ! i)) (PullRequestInfo.truncate (h ! a))"
proof -
  let ?pr = "PullRequestInfo.truncate (h ! a)"
  let ?r = "matchCategories E ?pr b (categorized B) False"
  have ni: "\<not> isIgnored E config ?pr"
    using counted by (auto simp: classifyStep_def Let_def split: if_splits)
  then have once: "snd ?r"
    using counted by (auto simp: classifyStep_def Let_def split: if_splits)
  with ni have "categorized (classifyStep E config h (a, b) B) = fst ?r"
    by (simp add: classifyStep_def Let_def)
  with listed matchCategories_nth[OF i, of E ?pr b False]
  have "\<not> excludedFromCategory E (fst (categorized B ! i)) ?pr
        \<and> categoryMatched E (fst (categorized B ! i)) ?pr"
    by (auto split: if_splits)
  with ni show ?thesis by simp
qed

text \<open>
  C6 as stated fails. The pull request with the label \<open>bug\<close> is listed under the
  exhaustive category on that label, and an added label takes it out of the category
  in three ways: the label \<open>wip\<close> is an exclude label of the category, the label \<open>skip\<close>
  is an ignored label and sends the pull request to the ignored bucket, and with a rule
  that reads the labels the label \<open>urgent\<close> makes the rule fail.
\<close>

theorem added_label_loses_exhaustive_match:
  "exhaustive bugCategory = Some True
   \<and> map snd (categorized (classify exampleExternals classifyConfig
        [examplePr 1 ''one'' [''bug'']] [(0, ''- one'')])) = [[''- one''], []]
   \<and> map snd (categorized (classify exampleExternals classifyConfig
        [examplePr 1 ''one'' [''bug'', ''wip'']] [(0, ''- one'')])) = [[], [''- one'']]
   \<and> map snd (categorized (classify exampleExternals classifyConfig
        [examplePr 1 ''one'' [''bug'', ''skip'']] [(0, ''- one'')])) = [[], []]
   \<and> exhaustive strictBugCategory = Some True
   \<and> map snd (categorized (classify exampleExternals strictConfig
        [examplePr 1 ''one'' [''bug'']] [(0, ''- one'')])) = [[''- one''], []]
   \<and> map snd (categorized (classify exampleExternals strictConfig
        [examplePr 1 ''one'' [''bug'', ''urgent'']] [(0, ''- one'')])) = [[], [''- one'']]"
  by code_simp

text \<open>
  C6, amended. A pull request that the classifier lists under an exhaustive category
  and counts as categorized is still listed there and counted so after a label is added
  to it, when the added label is none of the ignored labels and none of the exclude
  labels of the category, both in lower case, and the rules of the category, if it has
  any, hold for the pull request with the added label.
\<close>

theorem exhaustive_match_survives_added_label:
  assumes i: "i < length (categorized B)"
    and ex: "exhaustive (fst (categorized B ! i)) = Some True"
    and a: "a < length h"
    and listed: "snd (categorized (classifyStep E config h (a, b) B) ! i) = snd (categorized B ! i) @ [b]"
    and counted: "categorizedPrs (classifyStep E config h (a, b) B) = categorizedPrs B @ [b]"
    and not_ignored: "l \<notin> set (map (toLocaleLowerCase E) (ignore_labels config))"
    and not_excluded:
      "l \<notin> set (map (toLocaleLowerCase E)
                 (case exclude_labels (fst (categorized B ! i)) of None \<Rightarrow> [] | Some xs \<Rightarrow> xs))"
    and rules_hold:
      "\<forall>rs. rules (fst (categorized B ! i)) = Some rs \<longrightarrow>
         matchesRules E rs
           ((PullRequestInfo.truncate (h ! a))\<lparr>labels := labels (h ! a) @ [l]\<rparr>)
           (case exhaustive_rules (fst (categorized B ! i)) of None \<Rightarrow> True | Some v \<Rightarrow> v)"
  shows "categorized (classifyStep E config (h[a := (h ! a)\<lparr>labels := labels (h ! a) @ [l]\<rparr>]) (a, b) B) ! i
           = (fst (categorized B ! i), snd (categorized B ! i) @ [b])
       \<and> categorizedPrs (classifyStep E config (h[a := (h ! a)\<lparr>labels := labels (h ! a) @ [l]\<rparr>]) (a, b) B)
           = categorizedPrs B @ [b]
       \<and> ignoredPrs (classifyStep E config (h[a := (h ! a)\<lparr>labels := labels (h ! a) @ [l]\<rparr>]) (a, b) B)
           = ignoredPrs B"
proof -
  let ?c = "fst (categorized B ! i)"
  let ?pr = "PullRequestInfo.truncate (h ! a)"
  let ?h' = "h[a := (h ! a)\<lparr>labels := labels (h ! a) @ [l]\<rparr>]"
  have lab: "labels ?pr = labels (h ! a)"
    by (simp add: PullRequestInfo.truncate_def)
  have pr': "PullRequestInfo.truncate (?h' ! a) = ?pr\<lparr>labels := labels ?pr @ [l]\<rparr>"
    using a by (simp add: truncate_labels_update lab)
  from classifyStep_matched_conv[OF i listed counted]
  have ni: "\<not> isIgnored E config ?pr" and ne: "\<not> excludedFromCategory E ?c ?pr"
    and m: "categoryMatched E ?c ?pr"
    by simp_all
  have rules': "\<forall>rs. rules ?c = Some rs \<longrightarrow>
         matchesRules E rs (?pr\<lparr>labels := labels ?pr @ [l]\<rparr>)
           (case exhaustive_rules ?c of None \<Rightarrow> True | Some v \<Rightarrow> v)"
    using rules_hold by (simp only: lab)
  note kept = added_label_keeps_exhaustive_match[OF ex ne m not_excluded rules']
  have ne': "\<not> excludedFromCategory E ?c (PullRequestInfo.truncate (?h' ! a))"
    using kept by (simp add: pr')
  have m': "categoryMatched E ?c (PullRequestInfo.truncate (?h' ! a))"
    using kept by (simp add: pr')
  have ni': "\<not> isIgnored E config (PullRequestInfo.truncate (?h' ! a))"
    using ni not_ignored
    by (auto simp: pr' isIgnored_def haveCommonElementsArr_def list_ex_iff)
  from classifyStep_matched[OF i ni' ne' m', of b] show ?thesis
    by simp
qed

theorem exhaustive_match_survives_added_label_witness:
  "0 < length (categorized emptyBuckets)
   \<and> exhaustive (fst (categorized emptyBuckets ! 0)) = Some True
   \<and> 0 < length classifyExample
   \<and> snd (categorized (classifyStep exampleExternals classifyConfig classifyExample (0, ''- one'')
                          emptyBuckets) ! 0)
       = snd (categorized emptyBuckets ! 0) @ [''- one'']
   \<and> categorizedPrs (classifyStep exampleExternals classifyConfig classifyExample (0, ''- one'')
                        emptyBuckets)
       = categorizedPrs emptyBuckets @ [''- one'']
   \<and> ''urgent'' \<notin> set (map (toLocaleLowerCase exampleExternals) (ignore_labels classifyConfig))
   \<and> ''urgent'' \<notin> set (map (toLocaleLowerCase exampleExternals) [''wip''])
   \<and> matchesRules exampleExternals [\<lambda>pr. status pr = ''merged'']
        ((PullRequestInfo.truncate (classifyExample ! 0))
           \<lparr>labels := labels (classifyExample ! 0) @ [''urgent'']\<rparr>) True
   \<and> snd (categorized (classifyStep exampleExternals classifyConfig
             (classifyExample[0 := (classifyExample ! 0)
                \<lparr>labels := labels (classifyExample ! 0) @ [''urgent'']\<rparr>])
             (0, ''- one'') emptyBuckets) ! 0)
       = snd (categorized emptyBuckets ! 0) @ [''- one'']
   \<and> categorizedPrs (classifyStep exampleExternals classifyConfig
          (classifyExample[0 := (classifyExample ! 0)
             \<lparr>labels := labels (classifyExample ! 0) @ [''urgent'']\<rparr>])
          (0, ''- one'') emptyBuckets)
       = categorizedPrs emptyBuckets @ [''- one'']"
proof -
  let ?h' = "classifyExample[0 := (classifyExample ! 0)
               \<lparr>labels := labels (classifyExample ! 0) @ [''urgent'']\<rparr>]"
  have c: "fst (categorized emptyBuckets ! 0) = mergedBugCategory"
    by (simp add: emptyBuckets_def)
  have h1: "0 < length (categorized emptyBuckets)"
    by (simp add: emptyBuckets_def)
  have h2: "exhaustive (fst (categorized emptyBuckets ! 0)) = Some True"
    by (simp add: c mergedBugCategory_def bugCategory_def)
  have h3: "0 < length classifyExample"
    by (simp add: classifyExample_def)
  have h4: "snd (categorized (classifyStep exampleExternals classifyConfig classifyExample
                   (0, ''- one'') emptyBuckets) ! 0)
              = snd (categorized emptyBuckets ! 0) @ [''- one'']"
    by code_simp
  have h5: "categorizedPrs (classifyStep exampleExternals classifyConfig classifyExample
              (0, ''- one'') emptyBuckets) = categorizedPrs emptyBuckets @ [''- one'']"
    by code_simp
  have h6: "''urgent'' \<notin> set (map (toLocaleLowerCase exampleExternals) (ignore_labels classifyConfig))"
    by code_simp
  have h7': "''urgent'' \<notin> set (map (toLocaleLowerCase exampleExternals) [''wip''])"
    by code_simp
  have h7: "''urgent'' \<notin> set (map (toLocaleLowerCase exampleExternals)
              (case exclude_labels (fst (categorized emptyBuckets ! 0)) of None \<Rightarrow> [] | Some xs \<Rightarrow> xs))"
    using h7' by (simp add: c mergedBugCategory_def bugCategory_def)
  have h8': "matchesRules exampleExternals [\<lambda>pr. status pr = ''merged'']
               ((PullRequestInfo.truncate (classifyExample ! 0))
                  \<lparr>labels := labels (classifyExample ! 0) @ [''urgent'']\<rparr>) True"
    by code_simp
  have h8: "\<forall>rs. rules (fst (categorized emptyBuckets ! 0)) = Some rs \<longrightarrow>
              matchesRules exampleExternals rs
                ((PullRequestInfo.truncate (classifyExample ! 0))
                   \<lparr>labels := labels (classifyExample ! 0) @ [''urgent'']\<rparr>)
                (case exhaustive_rules (fst (categorized emptyBuckets ! 0)) of
                   None \<Rightarrow> True | Some v \<Rightarrow> v)"
    using h8' by (simp add: c mergedBugCategory_def bugCategory_def exampleCategory_def)
  note kept = exhaustive_match_survives_added_label[OF h1 h2 h3 h4 h5 h6 h7 h8]
  have k1: "snd (categorized (classifyStep exampleExternals classifyConfig ?h' (0, ''- one'')
                   emptyBuckets) ! 0)
              = snd (categorized emptyBuckets ! 0) @ [''- one'']"
    using kept by simp
  have k2: "categorizedPrs (classifyStep exampleExternals classifyConfig ?h' (0, ''- one'')
              emptyBuckets) = categorizedPrs emptyBuckets @ [''- one'']"
    using kept by simp
  show ?thesis
    by (intro conjI) (rule h1, rule h2, rule h3, rule h4, rule h5, rule h6, rule h7', rule h8',
        rule k1, rule k2)
qed

section \<open>Custom placeholders\<close>

lemma customPlaceholderStep_valid:
  assumes "validateTransformer E (transformer ph) = Some tr" and "pattern tr = Some re"
  shows "customPlaceholderStep E v config ph st =
           (let extractedValue = re_replace re v (target tr)
            in if extractedValue \<noteq> [] \<and> (extractedValue \<noteq> v \<or> re_match re v \<noteq> None)
               then (replaceAll (fst st) (placeholderToken (placeholder_name ph))
                       (trimmed E config extractedValue),
                     map_option (\<lambda>m. createOrSet m (placeholder_name ph) extractedValue) (snd st))
               else st)"
  using assms by (auto simp: customPlaceholderStep_def Let_def)

text \<open>
  C7 as stated fails: the pattern \<open>/^v/\<close> with an empty target turns the value \<open>v\<close> into
  the empty text, which differs from the value, and yet the token of the placeholder
  stays in the text and nothing is recorded.
\<close>

theorem empty_result_differs_but_is_unmatched:
  "re_replace (prefixRegExp ''v'') ''v'' [] \<noteq> ''v''
   \<and> handlePlaceholder exampleExternals ''${{TAG}} ${{SHORT}}'' ''TAG'' ''v''
         [(''TAG'', [shortPlaceholder])] (Some []) exampleConfig
       = (''v ${{SHORT}}'', Some [])"
  by code_simp

text \<open>
  C7, amended. For a custom placeholder with a valid replace-style extractor whose
  result is not empty: when the result equals the input value, the value is recorded
  and the token substituted if and only if the input matches the pattern of the
  extractor; when the result differs from the input, the value is always recorded and
  the token substituted.
\<close>

theorem nonempty_result_matched_iff:
  assumes valid: "validateTransformer E (transformer ph) = Some tr"
    and pat: "pattern tr = Some re"
    and nonempty: "re_replace re v (target tr) \<noteq> []"
  shows "(re_replace re v (target tr) = v \<and> re_match re v = None \<longrightarrow>
            customPlaceholderStep E v config ph st = st)
       \<and> (re_replace re v (target tr) \<noteq> v \<or> re_match re v \<noteq> None \<longrightarrow>
            customPlaceholderStep E v config ph st =
              (replaceAll (fst st) (placeholderToken (placeholder_name ph))
                 (trimmed E config (re_replace re v (target tr))),
               map_option (\<lambda>m. createOrSet m (placeholder_name ph) (re_replace re v (target tr)))
                 (snd st)))"
  using nonempty by (auto simp: customPlaceholderStep_valid[OF valid pat] Let_def)

theorem nonempty_result_matched_iff_witness:
  "validateTransformer exampleExternals (transformer shortPlaceholder) = Some (replaceExtractor ''v'' [])
   \<and> pattern (replaceExtractor ''v'' []) = Some (prefixRegExp ''v'')
   \<and> re_replace (prefixRegExp ''v'') ''v1.2'' (target (replaceExtractor ''v'' [])) = ''1.2''
   \<and> customPlaceholderStep exampleExternals ''v1.2'' exampleConfig shortPlaceholder
         (''v1.2 ${{SHORT}}'', Some [])
       = (''v1.2 1.2'', Some [(''SHORT'', [''1.2''])])"
proof -
  have h1: "validateTransformer exampleExternals (transformer shortPlaceholder)
              = Some (replaceExtractor ''v'' [])"
    by (simp add: exampleExternals_fields shortPlaceholder_def)
  have h2: "pattern (replaceExtractor ''v'' []) = Some (prefixRegExp ''v'')"
    by (simp add: replaceExtractor_def)
  have ev: "re_replace (prefixRegExp ''v'') ''v1.2'' (target (replaceExtractor ''v'' [])) = ''1.2''"
    by code_simp
  then have h3: "re_replace (prefixRegExp ''v'') ''v1.2'' (target (replaceExtractor ''v'' [])) \<noteq> []"
    by simp
  have d: "re_replace (prefixRegExp ''v'') ''v1.2'' (target (replaceExtractor ''v'' [])) \<noteq> ''v1.2''"
    by (simp add: ev)
  have r1: "replaceAll ''v1.2 ${{SHORT}}'' (placeholderToken (placeholder_name shortPlaceholder))
              (trimmed exampleExternals exampleConfig ''1.2'') = ''v1.2 1.2''"
    by code_simp
  have r2: "createOrSet [] (placeholder_name shortPlaceholder) ''1.2'' = [(''SHORT'', [''1.2''])]"
    by code_simp
  from nonempty_result_matched_iff[OF h1 h2 h3, where config = exampleConfig
      and st = "(''v1.2 ${{SHORT}}'', Some [])"] d
  have "customPlaceholderStep exampleExternals ''v1.2'' exampleConfig shortPlaceholder
          (''v1.2 ${{SHORT}}'', Some [])
        = (''v1.2 1.2'', Some [(''SHORT'', [''1.2''])])"
    by (simp add: ev r1 r2)
  then show ?thesis
    using h1 h2 ev by blast
qed

text \<open>
  C10. When the replace-style extractor of a custom placeholder turns the source value
  into the empty text, the placeholder is treated as unmatched: the text and the
  recorded values are as before, so that \<open>handlePlaceholder\<close> with this one placeholder
  only substitutes the token of the source key.
\<close>

theorem empty_result_is_unmatched:
  assumes valid: "validateTransformer E (transformer ph) = Some tr"
    and pat: "pattern tr = Some re"
    and empty: "re_replace re v (target tr) = []"
  shows "customPlaceholderStep E v config ph st = st
       \<and> handlePlaceholder E tmpl k v [(k, [ph])] placeholderPrMap config
           = (replaceAll tmpl (placeholderToken k) (trimmed E config v), placeholderPrMap)"
  using empty by (simp add: customPlaceholderStep_valid[OF valid pat] handlePlaceholder_def Let_def)

theorem empty_result_is_unmatched_witness:
  "validateTransformer exampleExternals (transformer shortPlaceholder) = Some (replaceExtractor ''v'' [])
   \<and> pattern (replaceExtractor ''v'' []) = Some (prefixRegExp ''v'')
   \<and> re_replace (prefixRegExp ''v'') ''v'' (target (replaceExtractor ''v'' [])) = []
   \<and> handlePlaceholder exampleExternals ''${{TAG}} ${{SHORT}}'' ''TAG'' ''v''
         [(''TAG'', [shortPlaceholder])] (Some []) exampleConfig
       = (replaceAll ''${{TAG}} ${{SHORT}}'' (placeholderToken ''TAG'')
            (trimmed exampleExternals exampleConfig ''v''), Some [])
   \<and> replaceAll ''${{TAG}} ${{SHORT}}'' (placeholderToken ''TAG'')
            (trimmed exampleExternals exampleConfig ''v'') = ''v ${{SHORT}}''"
proof -
  have h1: "validateTransformer exampleExternals (transformer shortPlaceholder)
              = Some (replaceExtractor ''v'' [])"
    by (simp add: exampleExternals_fields shortPlaceholder_def)
  have h2: "pattern (replaceExtractor ''v'' []) = Some (prefixRegExp ''v'')"
    by (simp add: replaceExtractor_def)
  have h3: "re_replace (prefixRegExp ''v'') ''v'' (target (replaceExtractor ''v'' [])) = []"
    by code_simp
  have r: "replaceAll ''${{TAG}} ${{SHORT}}'' (placeholderToken ''TAG'')
            (trimmed exampleExternals exampleConfig ''v'') = ''v ${{SHORT}}''"
    by code_simp
  from empty_result_is_unmatched[OF h1 h2 h3]
  have "handlePlaceholder exampleExternals ''${{TAG}} ${{SHORT}}'' ''TAG'' ''v''
         [(''TAG'', [shortPlaceholder])] (Some []) exampleConfig
       = (replaceAll ''${{TAG}} ${{SHORT}}'' (placeholderToken ''TAG'')
            (trimmed exampleExternals exampleConfig ''v''), Some [])"
    by blast
  then show ?thesis
    using h1 h2 h3 r by blast
qed

section \<open>Substitution of tokens\<close>

lemma replaceAllFrom_skip:
  "search = d # ss \<Longrightarrow> d \<notin> set pre \<Longrightarrow>
   replaceAllFrom seen (pre @ rest) search rep = pre @ replaceAllFrom (seen @ pre) rest search rep"
proof (induction pre arbitrary: seen)
  case Nil
  then show ?case by simp
next
  case (Cons c pre)
  then have "\<not> prefix search ((c # pre) @ rest)"
    by auto
  then have "replaceAllFrom seen ((c # pre) @ rest) search rep
               = c # replaceAllFrom (seen @ [c]) (pre @ rest) search rep"
    by (subst replaceAllFrom.simps) simp
  with Cons show ?case by simp
qed

lemma replaceAllFrom_without_first:
  assumes "search = d # ss" and "d \<notin> set rest"
  shows "replaceAllFrom seen rest search rep = rest"
proof -
  have "replaceAllFrom (seen @ rest) [] search rep = []"
    using assms(1) by (subst replaceAllFrom.simps) simp
  with replaceAllFrom_skip[OF assms, of seen "[]" rep] show ?thesis
    by simp
qed

lemma getSubstitution_plain:
  "CHR ''$'' \<notin> set rep \<Longrightarrow> getSubstitution matched pre post rep = rep"
  by (induction matched pre post rep rule: getSubstitution.induct) auto

lemma placeholderToken_Cons: "placeholderToken k = CHR ''$'' # ''{{'' @ k @ ''}}''"
  by (simp add: placeholderToken_def)

lemma replaceAll_token:
  "replaceAll s (placeholderToken k) rep = replaceAllFrom [] s (placeholderToken k) rep"
  by (simp add: replaceAll_def placeholderToken_Cons)

lemma replaceAllFrom_seen_irrelevant:
  assumes "CHR ''$'' \<notin> set rep"
  shows "replaceAllFrom seen s tok rep = replaceAllFrom seen' s tok rep"
proof (induction s arbitrary: seen seen' rule: length_induct)
  case (1 s)
  show ?case
  proof (cases "tok \<noteq> [] \<and> prefix tok s")
    case True
    then have "length (drop (length tok) s) < length s"
      by (auto simp: prefix_def)
    with 1 have "replaceAllFrom (seen @ tok) (drop (length tok) s) tok rep
                   = replaceAllFrom (seen' @ tok) (drop (length tok) s) tok rep"
      by blast
    with True show ?thesis
      by (subst (1 2) replaceAllFrom.simps) (simp add: getSubstitution_plain[OF assms])
  next
    case False
    show ?thesis
    proof (cases s)
      case Nil
      with False show ?thesis
        by (subst (1 2) replaceAllFrom.simps) simp
    next
      case (Cons c cs)
      with 1 have "replaceAllFrom (seen @ [c]) cs tok rep = replaceAllFrom (seen' @ [c]) cs tok rep"
        by simp
      with False Cons show ?thesis
        by (subst (1 2) replaceAllFrom.simps) auto
    qed
  qed
qed

lemma replaceAllFrom_absent:
  "tok \<noteq> [] \<Longrightarrow> \<not> sublist tok s \<Longrightarrow> replaceAllFrom seen s tok rep = s"
proof (induction s arbitrary: seen)
  case Nil
  then show ?case
    by (subst replaceAllFrom.simps) simp
next
  case (Cons c s)
  from Cons.prems(2) have np: "\<not> prefix tok (c # s)" and ns: "\<not> sublist tok s"
    by (auto simp: sublist_Cons_right)
  from Cons.IH[OF Cons.prems(1) ns] np show ?case
    by (subst replaceAllFrom.simps) simp
qed

lemma no_early_prefix:
  assumes "\<not> sublist tok ((c # pre) @ butlast tok)" and "tok \<noteq> []"
  shows "\<not> prefix tok ((c # pre) @ tok @ post)"
proof
  assume p: "prefix tok ((c # pre) @ tok @ post)"
  let ?w = "(c # pre) @ butlast tok"
  have "tok @ post = butlast tok @ last tok # post"
    using assms(2) by (simp add: append_butlast_last_id[symmetric] del: append_butlast_last_id)
  then have "(c # pre) @ tok @ post = ?w @ last tok # post"
    by simp
  then have w: "prefix ?w ((c # pre) @ tok @ post)"
    by (metis prefixI)
  have len: "length tok \<le> length ?w"
    using assms(2) by (cases tok) simp_all
  from prefix_length_prefix[OF p w len] have "prefix tok ?w" .
  then have "sublist tok ?w"
    by (rule prefix_imp_sublist)
  with assms(1) show False by contradiction
qed

lemma replaceAllFrom_first:
  "tok \<noteq> [] \<Longrightarrow> \<not> sublist tok (pre @ butlast tok) \<Longrightarrow>
   replaceAllFrom seen (pre @ tok @ post) tok rep
     = pre @ getSubstitution tok (seen @ pre) post rep
         @ replaceAllFrom (seen @ pre @ tok) post tok rep"
proof (induction pre arbitrary: seen)
  case Nil
  then show ?case
    by (subst replaceAllFrom.simps) simp
next
  case (Cons c pre)
  have np: "\<not> prefix tok ((c # pre) @ tok @ post)"
    by (rule no_early_prefix[OF Cons.prems(2,1)])
  have "\<not> sublist tok (pre @ butlast tok)"
    using Cons.prems(2) by (auto simp: sublist_Cons_right)
  from Cons.IH[OF Cons.prems(1) this, of "seen @ [c]"] np show ?case
    by (subst replaceAllFrom.simps) simp
qed

lemma first_occurrence:
  "tok \<noteq> [] \<Longrightarrow> sublist tok s \<Longrightarrow>
   \<exists>pre post. s = pre @ tok @ post \<and> \<not> sublist tok (pre @ butlast tok)"
proof (induction s)
  case Nil
  then show ?case by simp
next
  case (Cons c s)
  show ?case
  proof (cases "prefix tok (c # s)")
    case True
    then obtain post where "c # s = [] @ tok @ post"
      by (auto simp: prefix_def)
    moreover have "\<not> sublist tok ([] @ butlast tok)"
      using Cons.prems(1) sublist_length_le[of tok "butlast tok"] by (cases tok) auto
    ultimately show ?thesis by blast
  next
    case False
    with Cons.prems(2) have "sublist tok s"
      by (simp add: sublist_Cons_right)
    from Cons.IH[OF Cons.prems(1) this] obtain pre post
      where s: "s = pre @ tok @ post" and n: "\<not> sublist tok (pre @ butlast tok)"
      by blast
    have "\<not> sublist tok ((c # pre) @ butlast tok)"
    proof
      assume "sublist tok ((c # pre) @ butlast tok)"
      with n have p: "prefix tok ((c # pre) @ butlast tok)"
        by (simp add: sublist_Cons_right)
      have "tok @ post = butlast tok @ last tok # post"
        using Cons.prems(1) by (simp add: append_butlast_last_id[symmetric] del: append_butlast_last_id)
      then have "c # s = ((c # pre) @ butlast tok) @ last tok # post"
        using s by simp
      then have "prefix ((c # pre) @ butlast tok) (c # s)"
        by (metis prefixI)
      with p have "prefix tok (c # s)"
        by (rule prefix_order.trans)
      with False show False by contradiction
    qed
    moreover have "c # s = (c # pre) @ tok @ post"
      using s by simp
    ultimately show ?thesis by blast
  qed
qed

lemma replaceAll_token_literal:
  assumes "CHR ''$'' \<notin> set rep"
  shows "(\<not> sublist (placeholderToken k) s \<and> replaceAll s (placeholderToken k) rep = s)
       \<or> (\<exists>pre post. s = pre @ placeholderToken k @ post
             \<and> \<not> sublist (placeholderToken k) (pre @ butlast (placeholderToken k))
             \<and> replaceAll s (placeholderToken k) rep
                 = pre @ rep @ replaceAll post (placeholderToken k) rep)"
proof (cases "sublist (placeholderToken k) s")
  case False
  have ne: "placeholderToken k \<noteq> []"
    by (simp add: placeholderToken_Cons)
  from replaceAllFrom_absent[OF ne False] False show ?thesis
    by (simp add: replaceAll_token)
next
  case True
  have ne: "placeholderToken k \<noteq> []"
    by (simp add: placeholderToken_Cons)
  from first_occurrence[OF ne True] obtain pre post
    where s: "s = pre @ placeholderToken k @ post"
      and n: "\<not> sublist (placeholderToken k) (pre @ butlast (placeholderToken k))"
    by blast
  have "replaceAll s (placeholderToken k) rep
          = pre @ rep @ replaceAllFrom ([] @ pre @ placeholderToken k) post (placeholderToken k) rep"
    using replaceAllFrom_first[OF ne n, of "[]" post rep]
    by (simp add: s replaceAll_token getSubstitution_plain[OF assms])
  also have "\<dots> = pre @ rep @ replaceAll post (placeholderToken k) rep"
    using replaceAllFrom_seen_irrelevant[OF assms, of "[] @ pre @ placeholderToken k" post
        "placeholderToken k" "[]"]
    by (simp add: replaceAll_token)
  finally show ?thesis
    using s n by blast
qed

lemma replaceAll_token_absent:
  assumes "CHR ''$'' \<notin> set s"
  shows "replaceAll s (placeholderToken k) rep = s"
proof -
  have "replaceAllFrom [] s (placeholderToken k) rep = s"
    by (rule replaceAllFrom_without_first[OF placeholderToken_Cons assms])
  then show ?thesis
    by (simp only: replaceAll_token)
qed

lemma customPlaceholderStep_token_absent:
  "CHR ''$'' \<notin> set (fst st) \<Longrightarrow> fst (customPlaceholderStep E v config ph st) = fst st"
  by (simp add: customPlaceholderStep_def Let_def replaceAll_token_absent split: option.splits)

lemma fold_customPlaceholderStep_token_absent:
  "CHR ''$'' \<notin> set (fst st) \<Longrightarrow> fst (fold (customPlaceholderStep E v config) phs st) = fst st"
proof (induction phs arbitrary: st)
  case Nil
  then show ?case by simp
next
  case (Cons ph phs)
  have "CHR ''$'' \<notin> set (fst (customPlaceholderStep E v config ph st))"
    using Cons.prems by (simp add: customPlaceholderStep_token_absent)
  from Cons.IH[OF this] Cons.prems show ?case
    by (simp add: customPlaceholderStep_token_absent)
qed

lemma handlePlaceholder_token_absent:
  "CHR ''$'' \<notin> set tmpl \<Longrightarrow>
   fst (handlePlaceholder E tmpl k v placeholders placeholderPrMap config) = tmpl"
  by (simp add: handlePlaceholder_def Let_def replaceAll_token_absent
      fold_customPlaceholderStep_token_absent split: option.splits)

lemma fold_handlePlaceholder_token_absent:
  "CHR ''$'' \<notin> set (fst st) \<Longrightarrow>
   fst (fold (\<lambda>kv st. handlePlaceholder E (fst st) (fst kv) (snd kv) placeholders (snd st) config)
          m st) = fst st"
proof (induction m arbitrary: st)
  case Nil
  then show ?case by simp
next
  case (Cons kv m)
  let ?st = "handlePlaceholder E (fst st) (fst kv) (snd kv) placeholders (snd st) config"
  have eq: "fst ?st = fst st"
    using Cons.prems by (rule handlePlaceholder_token_absent)
  then have "CHR ''$'' \<notin> set (fst ?st)"
    using Cons.prems by simp
  from Cons.IH[OF this] eq show ?case
    by simp
qed

lemma replacePlaceholders_token_absent:
  "CHR ''$'' \<notin> set tmpl \<Longrightarrow>
   fst (replacePlaceholders E tmpl arrayPlaceholderMap placeholderMap placeholders placeholderPrMap
          config) = tmpl"
  by (simp add: replacePlaceholders_def Let_def fold_handlePlaceholder_token_absent)

lemma fillAdditionalPlaceholders_keys:
  "map fst (fillAdditionalPlaceholders E options []) =
     [''OWNER'', ''REPO'', ''FROM_TAG'', ''FROM_TAG_DATE'', ''TO_TAG'', ''TO_TAG_DATE'',
      ''DAYS_SINCE'', ''RELEASE_DIFF'']"
  by (simp add: fillAdditionalPlaceholders_def Map_of_sets_def)

text \<open>
  C8. For an empty list of pull requests \<open>buildChangelog\<close> returns the empty template
  with the placeholders of the document (owner, repository, tags, their dates, the days
  between them and the comparison link) and the custom placeholders derived from them
  replaced, and sets no output; the template \<open>No changes.\<close> is returned as it is.
\<close>

theorem empty_input_renders_empty_template:
  "buildChangelog E diffInfo [] options =
     \<lparr>returned = fst (replacePlaceholders E (empty_template (configuration options)) []
                       (fillAdditionalPlaceholders E options [])
                       (customPlaceholders (configuration options)) None (configuration options)),
      output_categorized = None, output_categorized_prs = None,
      output_uncategorized_prs = None, output_open_prs = None\<rparr>
   \<and> map fst (fillAdditionalPlaceholders E options []) =
       [''OWNER'', ''REPO'', ''FROM_TAG'', ''FROM_TAG_DATE'', ''TO_TAG'', ''TO_TAG_DATE'',
        ''DAYS_SINCE'', ''RELEASE_DIFF'']
   \<and> (empty_template (configuration options) = ''No changes.'' \<longrightarrow>
        returned (buildChangelog E diffInfo [] options) = ''No changes.'')"
proof -
  have "CHR ''$'' \<notin> set ''No changes.''"
    by simp
  then have "fst (replacePlaceholders E ''No changes.'' [] (fillAdditionalPlaceholders E options [])
                    (customPlaceholders (configuration options)) None (configuration options))
               = ''No changes.''"
    by (rule replacePlaceholders_token_absent)
  then show ?thesis
    by (simp add: buildChangelog_def replaceEmptyTemplate_def fillAdditionalPlaceholders_keys)
qed

theorem empty_input_renders_empty_template_witness:
  "empty_template (configuration exampleOptions) = ''No changes.''
   \<and> returned (buildChangelog exampleExternals
        \<lparr>changedFiles = 1, additions = 2, deletions = 3, changes = 5, commits = 1\<rparr> []
        exampleOptions) = ''No changes.''
   \<and> returned (buildChangelog exampleExternals
        \<lparr>changedFiles = 1, additions = 2, deletions = 3, changes = 5, commits = 1\<rparr> []
        (exampleOptions\<lparr>configuration := exampleConfig\<lparr>empty_template := ''${{OWNER}}/${{REPO}}: nothing since ${{FROM_TAG}}''\<rparr>\<rparr>))
       = ''octo/demo: nothing since v1''"
proof -
  have h: "empty_template (configuration exampleOptions) = ''No changes.''"
    by (simp add: exampleOptions_def exampleConfig_def)
  have r: "returned (buildChangelog exampleExternals
        \<lparr>changedFiles = 1, additions = 2, deletions = 3, changes = 5, commits = 1\<rparr> []
        (exampleOptions\<lparr>configuration := exampleConfig\<lparr>empty_template := ''${{OWNER}}/${{REPO}}: nothing since ${{FROM_TAG}}''\<rparr>\<rparr>))
       = ''octo/demo: nothing since v1''"
    by code_simp
  from empty_input_renders_empty_template[of exampleExternals
      "\<lparr>changedFiles = 1, additions = 2, deletions = 3, changes = 5, commits = 1\<rparr>" exampleOptions] h
  have "returned (buildChangelog exampleExternals
        \<lparr>changedFiles = 1, additions = 2, deletions = 3, changes = 5, commits = 1\<rparr> []
        exampleOptions) = ''No changes.''"
    by blast
  then show ?thesis
    using h r by blast
qed

section \<open>Array placeholders\<close>

lemma join_empty_separator: "join [] xs = concat xs"
  by (induction "[] :: string" xs rule: join.induct) simp_all

lemma replacePrPlaceholders_append:
  "replacePrPlaceholders E tmpl (m1 @ m2) config
     = replacePrPlaceholders E (replacePrPlaceholders E tmpl m1 config) m2 config"
  by (simp add: replacePrPlaceholders_def)

lemma replacePrPlaceholders_Cons:
  "replacePrPlaceholders E tmpl ((name, vals) # m) config
     = replacePrPlaceholders E
         (replaceAll
            (fold (\<lambda>i t. replaceAll t (placeholderToken (indexKey name i))
                            (trimmed E config (vals ! i)))
               [0..<length vals] tmpl)
            (placeholderToken (name @ ''[*]'')) (concat vals))
         m config"
  by (simp add: replacePrPlaceholders_def join_empty_separator)

lemma fold_index_lookup:
  "\<forall>i. indexKey k i \<noteq> key' \<Longrightarrow>
   Map_get (fold (\<lambda>i m. Map_set (indexKey k i) (f i) m) is m) key' = Map_get m key'"
  by (induction "is" arbitrary: m) (auto simp: AList.update_conv')

lemma fillArrayPlaceholders_star:
  "vals \<noteq> [] \<Longrightarrow>
   Map_get (fillArrayPlaceholders m k vals) (k @ ''[*]'') = Some (join '', '' vals)"
  by (simp add: fillArrayPlaceholders_def AList.update_conv')

lemma fillArrayPlaceholders_other:
  "key' \<noteq> k @ ''[*]'' \<Longrightarrow> \<forall>i. indexKey k i \<noteq> key' \<Longrightarrow>
   Map_get (fillArrayPlaceholders m k vals) key' = Map_get m key'"
  by (simp add: fillArrayPlaceholders_def AList.update_conv' fold_index_lookup)

lemma prArrayPlaceholders_stars:
  "assignees pr \<noteq> [] \<Longrightarrow>
     Map_get (prArrayPlaceholders E h pr) ''ASSIGNEES[*]'' = Some (join '', '' (assignees pr))"
  "requestedReviewers pr \<noteq> [] \<Longrightarrow>
     Map_get (prArrayPlaceholders E h pr) ''REVIEWERS[*]'' = Some (join '', '' (requestedReviewers pr))"
  "approvedReviewers pr \<noteq> [] \<Longrightarrow>
     Map_get (prArrayPlaceholders E h pr) ''APPROVERS[*]'' = Some (join '', '' (approvedReviewers pr))"
proof -
  have other: "Map_get (fillArrayPlaceholders m ''REVIEWERS'' vs) ''ASSIGNEES[*]''
                 = Map_get m ''ASSIGNEES[*]''"
    "Map_get (fillArrayPlaceholders m ''APPROVERS'' vs) ''ASSIGNEES[*]'' = Map_get m ''ASSIGNEES[*]''"
    "Map_get (fillArrayPlaceholders m ''APPROVERS'' vs) ''REVIEWERS[*]'' = Map_get m ''REVIEWERS[*]''"
    for m vs
    by (rule fillArrayPlaceholders_other; simp add: indexKey_def)+
  show "assignees pr \<noteq> [] \<Longrightarrow>
     Map_get (prArrayPlaceholders E h pr) ''ASSIGNEES[*]'' = Some (join '', '' (assignees pr))"
    using fillArrayPlaceholders_star[of "assignees pr" _ "''ASSIGNEES''"]
    by (simp add: prArrayPlaceholders_def other)
  show "requestedReviewers pr \<noteq> [] \<Longrightarrow>
     Map_get (prArrayPlaceholders E h pr) ''REVIEWERS[*]'' = Some (join '', '' (requestedReviewers pr))"
    using fillArrayPlaceholders_star[of "requestedReviewers pr" _ "''REVIEWERS''"]
    by (simp add: prArrayPlaceholders_def other)
  show "approvedReviewers pr \<noteq> [] \<Longrightarrow>
     Map_get (prArrayPlaceholders E h pr) ''APPROVERS[*]'' = Some (join '', '' (approvedReviewers pr))"
    using fillArrayPlaceholders_star[of "approvedReviewers pr" _ "''APPROVERS''"]
    by (simp add: prArrayPlaceholders_def)
qed

text \<open>
  C9 as stated fails. The recorded values, concatenated, are handed to \<open>replaceAll\<close> as
  its replacement text, in which a dollar sign starts a replacement pattern. The title
  \<open>vUS$$5\<close> is recorded for the custom placeholder \<open>SHORT\<close> as \<open>US$$5\<close>, and the token
  \<open>${{SHORT[*]}}\<close> of the template becomes \<open>US$5\<close>, which is not the concatenation of the
  recorded values. The loop also works on the text that the earlier entries left: with
  the value \<open>}}\<close> recorded for \<open>A\<close> and the value \<open>x\<close> for \<open>B\<close>, the template
  \<open>${{B[*]${{A[*]}}\<close> becomes \<open>${{B[*]}}\<close> in the round of \<open>A\<close> and \<open>x\<close> in the round of
  \<open>B\<close>, so that the result does not hold the value of \<open>A\<close> in the place of its token.
\<close>

theorem dollar_in_recorded_value_is_a_pattern:
  "snd (fillPrTemplate exampleExternals [] ((examplePr 1 ''one'' [])\<lparr>title := ''vUS$$5''\<rparr>)
          ''- ${{TITLE}}''
          (customPlaceholders (exampleConfig\<lparr>custom_placeholders := Some [titlePlaceholder]\<rparr>))
          [] exampleConfig)
     = [(''SHORT'', [''US$$5''])]
   \<and> replacePrPlaceholders exampleExternals ''Versions: [${{SHORT[*]}}]''
         [(''SHORT'', [''US$$5''])] exampleConfig
       = ''Versions: [US$5]''
   \<and> replacePrPlaceholders exampleExternals ''Versions: [${{SHORT[*]}}]''
         [(''SHORT'', [''US$$5''])] exampleConfig
       \<noteq> ''Versions: ['' @ concat [''US$$5''] @ '']''
   \<and> returned (buildChangelog exampleExternals
         \<lparr>changedFiles = 1, additions = 2, deletions = 3, changes = 5, commits = 1\<rparr>
         [(examplePr 1 ''one'' [])\<lparr>title := ''vUS$$5''\<rparr>]
         (exampleOptions\<lparr>configuration := exampleConfig\<lparr>
            categories := [exampleCategory],
            custom_placeholders := Some [titlePlaceholder],
            template := ''Versions: [${{SHORT[*]}}]''\<rparr>\<rparr>))
       = ''Versions: [US$5]''
   \<and> replacePrPlaceholders exampleExternals ''${{B[*]${{A[*]}}''
         [(''A'', [''}}'']), (''B'', [''x''])] exampleConfig
       = ''x''
   \<and> replacePrPlaceholders exampleExternals ''${{B[*]${{A[*]}}''
         [(''A'', [''}}'']), (''B'', [''x''])] exampleConfig
       \<noteq> ''${{B[*]'' @ concat [''}}'']"
  by code_simp

text \<open>
  C9, amended. In the second pass, for every tracked custom placeholder \<open>NAME\<close>,
  \<open>replaceAll\<close> is called on the text reached so far, which is the top-level template
  after the entries before \<open>NAME\<close> and the indexed tokens of \<open>NAME\<close> were substituted,
  with the token \<open>${{NAME[*]}}\<close> and, as replacement text, the recorded values
  concatenated with the empty string as separator; the result goes to the later
  entries. A text without the token is left as it is. When the concatenation holds no
  dollar sign, the first occurrence of the token becomes exactly the concatenation, the
  text before it is kept, and the text after it is treated in the same way, so that
  every occurrence is replaced by the concatenation; a text that holds the token has
  such a first occurrence. Every built-in array placeholder \<open>KEY[*]\<close> of a list that is
  not empty holds the elements joined with a comma and a space, and this is the entry
  found for the assignees, the requested reviewers and the approvers of a pull request.
\<close>

theorem custom_star_token_becomes_concatenation:
  "replacePrPlaceholders E tmpl (earlier @ (name, vals) # later) config
     = replacePrPlaceholders E
         (replaceAll
            (fold (\<lambda>i t. replaceAll t (placeholderToken (indexKey name i))
                            (trimmed E config (vals ! i)))
               [0..<length vals] (replacePrPlaceholders E tmpl earlier config))
            (placeholderToken (name @ ''[*]'')) (concat vals))
         later config
   \<and> (\<forall>s. \<not> sublist (placeholderToken (name @ ''[*]'')) s \<longrightarrow>
          replaceAll s (placeholderToken (name @ ''[*]'')) (concat vals) = s)
   \<and> (CHR ''$'' \<notin> set (concat vals) \<longrightarrow>
        (\<forall>pre post.
           \<not> sublist (placeholderToken (name @ ''[*]''))
                (pre @ butlast (placeholderToken (name @ ''[*]''))) \<longrightarrow>
           replaceAll (pre @ placeholderToken (name @ ''[*]'') @ post)
               (placeholderToken (name @ ''[*]'')) (concat vals)
             = pre @ concat vals
                 @ replaceAll post (placeholderToken (name @ ''[*]'')) (concat vals)))
   \<and> (\<forall>s. sublist (placeholderToken (name @ ''[*]'')) s \<longrightarrow>
          (\<exists>pre post. s = pre @ placeholderToken (name @ ''[*]'') @ post
             \<and> \<not> sublist (placeholderToken (name @ ''[*]''))
                    (pre @ butlast (placeholderToken (name @ ''[*]'')))))
   \<and> (elems \<noteq> [] \<longrightarrow>
        Map_get (fillArrayPlaceholders placeholderMap k elems) (k @ ''[*]'')
          = Some (join '', '' elems))
   \<and> (assignees pr \<noteq> [] \<longrightarrow>
        Map_get (prArrayPlaceholders E h pr) ''ASSIGNEES[*]'' = Some (join '', '' (assignees pr)))
   \<and> (requestedReviewers pr \<noteq> [] \<longrightarrow>
        Map_get (prArrayPlaceholders E h pr) ''REVIEWERS[*]''
          = Some (join '', '' (requestedReviewers pr)))
   \<and> (approvedReviewers pr \<noteq> [] \<longrightarrow>
        Map_get (prArrayPlaceholders E h pr) ''APPROVERS[*]''
          = Some (join '', '' (approvedReviewers pr)))"
proof -
  let ?tok = "placeholderToken (name @ ''[*]'')"
  have ne: "?tok \<noteq> []"
    by (simp add: placeholderToken_Cons)
  have step: "replacePrPlaceholders E tmpl (earlier @ (name, vals) # later) config
     = replacePrPlaceholders E
         (replaceAll
            (fold (\<lambda>i t. replaceAll t (placeholderToken (indexKey name i))
                            (trimmed E config (vals ! i)))
               [0..<length vals] (replacePrPlaceholders E tmpl earlier config))
            ?tok (concat vals))
         later config"
    by (simp only: replacePrPlaceholders_append replacePrPlaceholders_Cons)
  have absent: "replaceAll s ?tok (concat vals) = s" if "\<not> sublist ?tok s" for s
    using replaceAllFrom_absent[OF ne that] by (simp add: replaceAll_token)
  have first: "replaceAll (pre @ ?tok @ post) ?tok (concat vals)
                 = pre @ concat vals @ replaceAll post ?tok (concat vals)"
    if d: "CHR ''$'' \<notin> set (concat vals)" and n: "\<not> sublist ?tok (pre @ butlast ?tok)"
    for pre post
  proof -
    have "replaceAll (pre @ ?tok @ post) ?tok (concat vals)
            = pre @ concat vals @ replaceAllFrom ([] @ pre @ ?tok) post ?tok (concat vals)"
      using replaceAllFrom_first[OF ne n, of "[]" post "concat vals"]
      by (simp add: replaceAll_token getSubstitution_plain[OF d])
    also have "replaceAllFrom ([] @ pre @ ?tok) post ?tok (concat vals)
                 = replaceAll post ?tok (concat vals)"
      using replaceAllFrom_seen_irrelevant[OF d, of "[] @ pre @ ?tok" post ?tok "[]"]
      by (simp add: replaceAll_token)
    finally show ?thesis .
  qed
  have found: "\<exists>pre post. s = pre @ ?tok @ post \<and> \<not> sublist ?tok (pre @ butlast ?tok)"
    if "sublist ?tok s" for s
    by (rule first_occurrence[OF ne that])
  have star: "Map_get (fillArrayPlaceholders placeholderMap k elems) (k @ ''[*]'')
                = Some (join '', '' elems)" if "elems \<noteq> []"
    by (rule fillArrayPlaceholders_star[OF that])
  note builtin = prArrayPlaceholders_stars[of pr E h]
  show ?thesis
    by (intro conjI allI impI) (rule step, erule absent, erule (1) first, erule found,
        erule star, erule builtin(1), erule builtin(2), erule builtin(3))
qed

theorem custom_star_token_becomes_concatenation_witness:
  "CHR ''$'' \<notin> set (concat [''1.2'', ''1.3''])
   \<and> \<not> sublist (placeholderToken (''SHORT'' @ ''[*]''))
          (''Cost $5, versions: '' @ butlast (placeholderToken (''SHORT'' @ ''[*]'')))
   \<and> \<not> sublist (placeholderToken (''SHORT'' @ ''[*]'')) ''.''
   \<and> replacePrPlaceholders exampleExternals ''Cost $5, versions: ${{SHORT[*]}}.''
        [(''SHORT'', [''1.2'', ''1.3''])] exampleConfig
       = ''Cost $5, versions: 1.21.3.''
   \<and> assignees ((examplePr 1 ''one'' [])\<lparr>assignees := [''ann'', ''bob'']\<rparr>) \<noteq> []
   \<and> Map_get (prArrayPlaceholders exampleExternals []
                 ((examplePr 1 ''one'' [])\<lparr>assignees := [''ann'', ''bob'']\<rparr>)) ''ASSIGNEES[*]''
       = Some ''ann, bob''"
proof -
  let ?tok = "placeholderToken (''SHORT'' @ ''[*]'')"
  let ?vals = "[''1.2'', ''1.3'']"
  let ?pr = "(examplePr 1 ''one'' [])\<lparr>assignees := [''ann'', ''bob'']\<rparr>"
  note inst = custom_star_token_becomes_concatenation[where E = exampleExternals
      and config = exampleConfig and name = "''SHORT''" and vals = ?vals
      and earlier = "[]" and later = "[]" and tmpl = "''Cost $5, versions: ${{SHORT[*]}}.''"
      and pr = ?pr and h = "[]"]
  have h1: "CHR ''$'' \<notin> set (concat ?vals)"
    by simp
  have h2: "\<not> sublist ?tok (''Cost $5, versions: '' @ butlast ?tok)"
    by code_simp
  have h3: "\<not> sublist ?tok ''.''"
    by code_simp
  have h4: "assignees ?pr \<noteq> []"
    by simp
  have t: "fold (\<lambda>i t. replaceAll t (placeholderToken (indexKey ''SHORT'' i))
                          (trimmed exampleExternals exampleConfig (?vals ! i)))
             [0..<length ?vals]
             (replacePrPlaceholders exampleExternals ''Cost $5, versions: ${{SHORT[*]}}.'' []
                exampleConfig)
           = ''Cost $5, versions: '' @ ?tok @ ''.''"
    by code_simp
  from inst h3 have rest: "replaceAll ''.'' ?tok (concat ?vals) = ''.''"
    by blast
  from inst h1 h2
  have "replaceAll (''Cost $5, versions: '' @ ?tok @ ''.'') ?tok (concat ?vals)
          = ''Cost $5, versions: '' @ concat ?vals @ replaceAll ''.'' ?tok (concat ?vals)"
    by blast
  then have all: "replaceAll (''Cost $5, versions: '' @ ?tok @ ''.'') ?tok (concat ?vals)
          = ''Cost $5, versions: 1.21.3.''"
    by (simp only: rest) simp
  from inst have "replacePrPlaceholders exampleExternals ''Cost $5, versions: ${{SHORT[*]}}.''
        ([] @ (''SHORT'', ?vals) # []) exampleConfig
      = replacePrPlaceholders exampleExternals
          (replaceAll
             (fold (\<lambda>i t. replaceAll t (placeholderToken (indexKey ''SHORT'' i))
                          (trimmed exampleExternals exampleConfig (?vals ! i)))
                [0..<length ?vals]
                (replacePrPlaceholders exampleExternals ''Cost $5, versions: ${{SHORT[*]}}.'' []
                   exampleConfig))
             ?tok (concat ?vals))
          [] exampleConfig"
    by (rule conjunct1)
  then have r: "replacePrPlaceholders exampleExternals ''Cost $5, versions: ${{SHORT[*]}}.''
        [(''SHORT'', ?vals)] exampleConfig = ''Cost $5, versions: 1.21.3.''"
    by (simp only: t all append_Nil) (simp add: replacePrPlaceholders_def)
  from inst h4 have "Map_get (prArrayPlaceholders exampleExternals [] ?pr) ''ASSIGNEES[*]''
      = Some (join '', '' (assignees ?pr))"
    by blast
  then have a: "Map_get (prArrayPlaceholders exampleExternals [] ?pr) ''ASSIGNEES[*]''
      = Some ''ann, bob''"
    by simp
  show ?thesis
    by (intro conjI) (rule h1, rule h2, rule h3, rule r, rule h4, rule a)
qed

section \<open>The whole pipeline on an example\<close>

text \<open>
  Three pull requests, one with the label \<open>bug\<close>, one without a label and one with the
  ignored label, a category for the label \<open>bug\<close> and a category without labels and
  rules: the first pull request is listed under the first category and counted as
  categorized, the second one is listed under the second category and counted as
  uncategorized, and the third one is ignored.
\<close>

lemma buildChangelog_example:
  "buildChangelog exampleExternals
     \<lparr>changedFiles = 1, additions = 2, deletions = 3, changes = 5, commits = 1\<rparr>
     classifyExample
     (exampleOptions\<lparr>configuration := classifyConfig\<lparr>
        pr_template := ''- #${{NUMBER}} ${{BODY}}'',
        template := ''${{CHANGELOG}}Ignored:'' @ newline
                      @ ''${{IGNORED}}${{CATEGORIZED_COUNT}}/${{UNCATEGORIZED_COUNT}} by ${{OWNER}}''\<rparr>\<rparr>)
   = \<lparr>returned = ''## Bugs'' @ newline @ newline @ ''- #1 one'' @ newline @ newline
                  @ ''## Changes'' @ newline @ newline @ ''- #2 two'' @ newline @ newline
                  @ ''Ignored:'' @ newline @ ''- #3 three'' @ newline @ ''1/1 by octo'',
      output_categorized = Some [(''## Bugs'', [''- #1 one'']), (''## Changes'', [''- #2 two''])],
      output_categorized_prs = Some 1, output_uncategorized_prs = Some 1,
      output_open_prs = None\<rparr>"
  by code_simp

end
